theory Spec2Isabelle
  imports Complex_Main
begin

section \<open>Conflation of a lanelet map with OpenStreetMap ways\<close>

text \<open>
  A shallow embedding of \<^verbatim>\<open>src/conflation/conflation.cpp\<close> (class \<^verbatim>\<open>cconflation\<close>).
  Every function of the model carries the name of the C++ method it embeds.  What the
  C++ does beyond returning a value is explicit: mutation of the map, of the match and of
  the out-parameters is state passing, an exception or an operation with undefined
  behaviour is a value of \<open>failure\<close> on the left of a sum.
\<close>

subsection \<open>Failures\<close>

datatype failure =
    Invalid_argument       \<comment> \<open>\<^verbatim>\<open>std::invalid_argument\<close>, thrown by \<^verbatim>\<open>std::stoi\<close>\<close>
  | Out_of_range           \<comment> \<open>\<^verbatim>\<open>std::out_of_range\<close>, thrown by \<^verbatim>\<open>std::stoi\<close>\<close>
  | Undefined_behaviour    \<comment> \<open>a read outside a container, \<^verbatim>\<open>front()\<close> of an empty one, an empty optional\<close>

subsection \<open>Attribute tables, points and linestrings\<close>

type_synonym Id = int

text \<open>
  \<^verbatim>\<open>lanelet::AttributeMap\<close>: string keys, string values.  The list is the table in the
  order in which the container is iterated; \<^verbatim>\<open>hasAttribute(k)\<close> is \<open>map_of a k \<noteq> None\<close>
  and \<^verbatim>\<open>attribute(k).value()\<close> is the value found there.
\<close>

type_synonym AttributeMap = "(string \<times> string) list"

text \<open>
  A \<^verbatim>\<open>double\<close> (IEEE 754 binary64).  A finite value is the real it denotes; the three
  special values are kept, since the code divides without a guard.  The model has one
  zero.
\<close>

datatype dbl = Fin real | PInf | NInf | NaN

text \<open>
  Rounding to binary64, to nearest with ties to even.  \<open>pow2 e\<close> is the power of two with
  exponent \<open>e\<close>; \<open>binade a\<close> is the exponent \<open>e\<close> with \<open>pow2 e \<le> a < pow2 (e + 1)\<close>, kept
  between \<open>-1022\<close> (the subnormal numbers share the spacing of the smallest normal ones)
  and \<open>1023\<close>.  The doubles of that binade are the multiples of \<open>pow2 (e - 52)\<close>, and a
  result beyond the largest double is an infinity.
\<close>

definition pow2 :: "int \<Rightarrow> real" where
  "pow2 e = (if 0 \<le> e then 2 ^ nat e else 1 / 2 ^ nat (- e))"

definition round_even :: "real \<Rightarrow> int" where
  "round_even x =
     (let n = \<lfloor>x\<rfloor>; r = x - of_int n
      in if r < 1 / 2 then n else if 1 / 2 < r then n + 1 else if even n then n else n + 1)"

fun binade_up :: "nat \<Rightarrow> real \<Rightarrow> int \<Rightarrow> int" where
  "binade_up 0 a e = e"
| "binade_up (Suc n) a e = (if a < pow2 (e + 1) then e else binade_up n a (e + 1))"

fun binade_down :: "nat \<Rightarrow> real \<Rightarrow> int \<Rightarrow> int" where
  "binade_down 0 a e = e"
| "binade_down (Suc n) a e = (if pow2 e \<le> a then e else binade_down n a (e - 1))"

definition binade :: "real \<Rightarrow> int" where
  "binade a = (if 1 \<le> a then binade_up 1023 a 0 else binade_down 1022 a 0)"

definition max_double :: real where
  "max_double = (2 ^ 53 - 1) * pow2 971"

definition round_double :: "real \<Rightarrow> dbl" where
  "round_double x =
     (let q = pow2 (binade \<bar>x\<bar> - 52); y = of_int (round_even (x / q)) * q
      in if max_double < \<bar>y\<bar> then (if 0 < x then PInf else NInf) else Fin y)"

record Point3d =
  p_id :: Id
  p_x :: dbl
  p_y :: dbl
  p_z :: dbl
  p_attrs :: AttributeMap

record LineStringData =
  ls_id :: Id
  ls_attrs :: AttributeMap
  ls_points :: "Point3d list"

text \<open>\<^verbatim>\<open>ls.front()\<close>: undefined on a linestring without points.\<close>

definition ls_front :: "LineStringData \<Rightarrow> failure + Point3d" where
  "ls_front ls = (case ls_points ls of [] \<Rightarrow> Inl Undefined_behaviour | p # _ \<Rightarrow> Inr p)"

subsection \<open>Attribute-change detection: \<^verbatim>\<open>check_tag_change\<close>\<close>

text \<open>
  The inner loop of \<^verbatim>\<open>check_tag_change\<close> over the segments after the first one:
  \<open>val\<close> is the running value, \<open>pts_k\<close> and \<open>values_k\<close> are the two vectors being filled.
\<close>

fun check_tag_change_walk ::
  "string \<Rightarrow> string \<Rightarrow> Point3d list \<Rightarrow> string list \<Rightarrow> LineStringData list
     \<Rightarrow> failure + (Point3d list \<times> string list)" where
  "check_tag_change_walk key val pts_k values_k [] = Inr (pts_k, values_k)"
| "check_tag_change_walk key val pts_k values_k (it # rest) =
     (case map_of (ls_attrs it) key of
        Some v \<Rightarrow>
          if v \<noteq> val then
            (case ls_front it of
               Inl e \<Rightarrow> Inl e
             | Inr p \<Rightarrow> check_tag_change_walk key v (pts_k @ [p]) (values_k @ [v]) rest)
          else check_tag_change_walk key val pts_k values_k rest
      | None \<Rightarrow>
          if val \<noteq> [] then
            (case ls_front it of
               Inl e \<Rightarrow> Inl e
             | Inr p \<Rightarrow> check_tag_change_walk key [] (pts_k @ [p]) (values_k @ [[]]) rest)
          else check_tag_change_walk key val pts_k values_k rest)"

text \<open>The value a segment carries for a key, absence read as the empty string.\<close>

definition tag_value :: "LineStringData \<Rightarrow> string \<Rightarrow> string" where
  "tag_value seg key = (case map_of (ls_attrs seg) key of Some v \<Rightarrow> v | None \<Rightarrow> [])"

text \<open>The seed value of a key: the first segment's value if the route has one.\<close>

definition first_value :: "LineStringData list \<Rightarrow> string \<Rightarrow> string" where
  "first_value pline key = (case pline of [] \<Rightarrow> [] | s # _ \<Rightarrow> tag_value s key)"

text \<open>
  \<^verbatim>\<open>check_tag_change(pline, keys, pts, values)\<close>: one entry is pushed to \<open>pts\<close> and to
  \<open>values\<close> per key.
\<close>

fun check_tag_change ::
  "LineStringData list \<Rightarrow> string list \<Rightarrow> Point3d list list \<Rightarrow> string list list
     \<Rightarrow> failure + (Point3d list list \<times> string list list)" where
  "check_tag_change pline [] pts vals = Inr (pts, vals)"
| "check_tag_change pline (key # keys) pts vals =
     (case check_tag_change_walk key (first_value pline key) [] [first_value pline key]
             (tl pline) of
        Inl e \<Rightarrow> Inl e
      | Inr (pts_k, values_k) \<Rightarrow> check_tag_change pline keys (pts @ [pts_k]) (vals @ [values_k]))"

subsection \<open>Arithmetic on doubles\<close>

text \<open>
  The operations follow IEEE 754: on finite values the exact result is rounded, so that
  a sum, product or quotient can overflow to an infinity.  With the single zero of the
  model a quotient by zero takes the sign of its numerator.
\<close>

fun dneg :: "dbl \<Rightarrow> dbl" where
  "dneg (Fin a) = Fin (- a)"
| "dneg PInf = NInf"
| "dneg NInf = PInf"
| "dneg NaN = NaN"

fun dadd :: "dbl \<Rightarrow> dbl \<Rightarrow> dbl" where
  "dadd (Fin a) (Fin b) = round_double (a + b)"
| "dadd NaN b = NaN"
| "dadd a NaN = NaN"
| "dadd PInf NInf = NaN"
| "dadd NInf PInf = NaN"
| "dadd PInf b = PInf"
| "dadd a PInf = PInf"
| "dadd NInf b = NInf"
| "dadd a NInf = NInf"

definition dsub :: "dbl \<Rightarrow> dbl \<Rightarrow> dbl" where
  "dsub a b = dadd a (dneg b)"

text \<open>The product of an infinity of the given sign (\<open>True\<close> for positive) and a finite value.\<close>

definition inf_times :: "bool \<Rightarrow> real \<Rightarrow> dbl" where
  "inf_times pos a =
     (if a = 0 then NaN else if (0 < a) = pos then PInf else NInf)"

fun dmul :: "dbl \<Rightarrow> dbl \<Rightarrow> dbl" where
  "dmul (Fin a) (Fin b) = round_double (a * b)"
| "dmul NaN b = NaN"
| "dmul a NaN = NaN"
| "dmul (Fin a) PInf = inf_times True a"
| "dmul (Fin a) NInf = inf_times False a"
| "dmul PInf (Fin b) = inf_times True b"
| "dmul NInf (Fin b) = inf_times False b"
| "dmul PInf PInf = PInf"
| "dmul PInf NInf = NInf"
| "dmul NInf PInf = NInf"
| "dmul NInf NInf = PInf"

fun ddiv :: "dbl \<Rightarrow> dbl \<Rightarrow> dbl" where
  "ddiv (Fin a) (Fin b) =
     (if b = 0 then (if a = 0 then NaN else if 0 < a then PInf else NInf)
      else round_double (a / b))"
| "ddiv NaN b = NaN"
| "ddiv a NaN = NaN"
| "ddiv (Fin a) PInf = Fin 0"
| "ddiv (Fin a) NInf = Fin 0"
| "ddiv PInf (Fin b) = (if 0 \<le> b then PInf else NInf)"
| "ddiv NInf (Fin b) = (if 0 \<le> b then NInf else PInf)"
| "ddiv a b = NaN"

fun dabs :: "dbl \<Rightarrow> dbl" where
  "dabs (Fin a) = Fin \<bar>a\<bar>"
| "dabs PInf = PInf"
| "dabs NInf = PInf"
| "dabs NaN = NaN"

fun dsqrt :: "dbl \<Rightarrow> dbl" where
  "dsqrt (Fin a) = (if a < 0 then NaN else round_double (sqrt a))"
| "dsqrt PInf = PInf"
| "dsqrt NInf = NaN"
| "dsqrt NaN = NaN"

text \<open>\<^verbatim>\<open>a < b\<close> on doubles: false as soon as one side is not a number.\<close>

fun dless :: "dbl \<Rightarrow> dbl \<Rightarrow> bool" where
  "dless (Fin a) (Fin b) = (a < b)"
| "dless NaN b = False"
| "dless a NaN = False"
| "dless NInf NInf = False"
| "dless NInf b = True"
| "dless a PInf = (a \<noteq> PInf)"
| "dless a b = False"

fun is_Fin :: "dbl \<Rightarrow> bool" where
  "is_Fin (Fin a) = True"
| "is_Fin a = False"

text \<open>
  \<^verbatim>\<open>std::distance(v.begin(), std::min_element(v.begin(), v.end()))\<close>: the index of the
  first element that no later element is less than; of an empty vector, the index of
  \<^verbatim>\<open>end()\<close>, which is 0.
\<close>

fun min_element_from :: "dbl \<Rightarrow> nat \<Rightarrow> nat \<Rightarrow> dbl list \<Rightarrow> nat" where
  "min_element_from smallest k i [] = k"
| "min_element_from smallest k i (x # xs) =
     (if dless x smallest then min_element_from x i (Suc i) xs
      else min_element_from smallest k (Suc i) xs)"

definition min_element :: "dbl list \<Rightarrow> nat" where
  "min_element v = (case v of [] \<Rightarrow> 0 | x # xs \<Rightarrow> min_element_from x 0 1 xs)"

subsection \<open>Geometry\<close>

text \<open>\<^verbatim>\<open>lanelet::BasicPoint3d\<close>: three coordinates, no identity.\<close>

type_synonym BasicPoint3d = "dbl \<times> dbl \<times> dbl"

definition basicPoint :: "Point3d \<Rightarrow> BasicPoint3d" where
  "basicPoint p = (p_x p, p_y p, p_z p)"

definition dsquare :: "dbl \<Rightarrow> dbl" where
  "dsquare a = dmul a a"

text \<open>\<^verbatim>\<open>lanelet::geometry::distance\<close> of two basic points: the Euclidean norm of the difference.\<close>

fun distance :: "BasicPoint3d \<Rightarrow> BasicPoint3d \<Rightarrow> dbl" where
  "distance (ax, ay, az) (bx, by, bz) =
     dsqrt (dadd (dadd (dsquare (dsub ax bx)) (dsquare (dsub ay by))) (dsquare (dsub az bz)))"

text \<open>\<^verbatim>\<open>lanelet::geometry::distance2d\<close> of two points: the same in the plane.\<close>

definition distance2d :: "Point3d \<Rightarrow> Point3d \<Rightarrow> dbl" where
  "distance2d a b =
     dsqrt (dadd (dsquare (dsub (p_x a) (p_x b))) (dsquare (dsub (p_y a) (p_y b))))"

text \<open>
  The loop of \<^verbatim>\<open>find_segment_2D\<close>: for each pair of consecutive vertices the slope \<open>m\<close> and
  the intercept \<open>t\<close> of the line through them, and the vertical offset of \<open>pt\<close> from it.
\<close>

fun segment_diffs :: "Point3d \<Rightarrow> Point3d list \<Rightarrow> dbl list" where
  "segment_diffs pt (a # b # rest) =
     (let m = ddiv (dsub (p_y b) (p_y a)) (dsub (p_x b) (p_x a));
          t = dsub (p_y a) (dmul m (p_x a))
      in dabs (dsub (p_y pt) (dadd (dmul m (p_x pt)) t)) # segment_diffs pt (b # rest))"
| "segment_diffs pt ls = []"

text \<open>
  \<^verbatim>\<open>find_segment_2D(pt, ls)\<close>, on the points the linestring presents.  On a linestring
  without points \<^verbatim>\<open>ls.end() - 1\<close> is undefined.
\<close>

definition find_segment_2D :: "Point3d \<Rightarrow> Point3d list \<Rightarrow> failure + nat" where
  "find_segment_2D pt ls =
     (if ls = [] then Inl Undefined_behaviour else Inr (min_element (segment_diffs pt ls)))"

subsection \<open>Shared linestrings and lanelets\<close>

text \<open>
  A \<^verbatim>\<open>lanelet::LineString3d\<close> is a handle: a pointer to shared data and an inversion
  flag.  Two lanelets that share a boundary hold handles to the same data, so the data
  live in a store addressed by the pointer, and a new linestring is a new address.  An
  inverted handle presents the points in reverse order, and \<^verbatim>\<open>pop_back\<close> and
  \<^verbatim>\<open>push_back\<close> through it act on that presentation.
\<close>

record LineString3d =
  ls_ptr :: nat
  ls_inverted :: bool

record LaneletData =
  ll_id :: Id
  ll_attrs :: AttributeMap
  ll_left :: LineString3d
  ll_right :: LineString3d

record Lanelet =
  ll_ptr :: nat
  ll_inverted :: bool

text \<open>
  The objects shared between the map, the match and the local variables: the linestring
  store, the lanelet store and the counter behind \<^verbatim>\<open>lanelet::utils::getId()\<close>.
\<close>

record World =
  ls_heap :: "LineStringData list"
  ll_heap :: "LaneletData list"
  next_id :: Id

definition getId :: "World \<Rightarrow> Id \<times> World" where
  "getId w = (next_id w, w\<lparr>next_id := next_id w + 1\<rparr>)"

definition invert :: "LineString3d \<Rightarrow> LineString3d" where
  "invert ls = ls\<lparr>ls_inverted := \<not> ls_inverted ls\<rparr>"

definition ls_data :: "World \<Rightarrow> LineString3d \<Rightarrow> LineStringData" where
  "ls_data w ls = ls_heap w ! ls_ptr ls"

text \<open>The point sequence a handle presents.\<close>

definition points_of :: "World \<Rightarrow> LineString3d \<Rightarrow> Point3d list" where
  "points_of w ls =
     (if ls_inverted ls then rev (ls_points (ls_data w ls)) else ls_points (ls_data w ls))"

text \<open>Writing the point sequence a handle presents back to the shared data.\<close>

definition set_points :: "World \<Rightarrow> LineString3d \<Rightarrow> Point3d list \<Rightarrow> World" where
  "set_points w ls ps =
     w\<lparr>ls_heap := (ls_heap w)
          [ls_ptr ls := (ls_data w ls)\<lparr>ls_points := (if ls_inverted ls then rev ps else ps)\<rparr>]\<rparr>"

text \<open>
  The constructor \<^verbatim>\<open>LineString3d(id, points, attributes)\<close>: fresh data, presented as
  stored.
\<close>

definition new_linestring ::
  "World \<Rightarrow> Id \<Rightarrow> Point3d list \<Rightarrow> AttributeMap \<Rightarrow> LineString3d \<times> World" where
  "new_linestring w i ps attrs =
     (\<lparr>ls_ptr = length (ls_heap w), ls_inverted = False\<rparr>,
      w\<lparr>ls_heap := ls_heap w @ [\<lparr>ls_id = i, ls_attrs = attrs, ls_points = ps\<rparr>]\<rparr>)"

text \<open>The handle that the next call of the constructor returns.\<close>

definition next_linestring :: "World \<Rightarrow> LineString3d" where
  "next_linestring w = \<lparr>ls_ptr = length (ls_heap w), ls_inverted = False\<rparr>"

text \<open>\<^verbatim>\<open>used_Id(ids, ls)\<close>: the linestring's id is among the ids.\<close>

definition used_Id_ls :: "World \<Rightarrow> Id list \<Rightarrow> LineString3d \<Rightarrow> bool" where
  "used_Id_ls w ids ls = (ls_id (ls_data w ls) \<in> set ids)"

text \<open>
  \<^verbatim>\<open>std::distance(ids.begin(), std::find(ids.begin(), ids.end(), x))\<close>: the index of
  the first occurrence, the length when there is none.
\<close>

fun find_index_of :: "Id \<Rightarrow> Id list \<Rightarrow> nat" where
  "find_index_of x [] = 0"
| "find_index_of x (y # ys) = (if y = x then 0 else Suc (find_index_of x ys))"

subsection \<open>The curve splitter: \<^verbatim>\<open>split_linestring\<close>\<close>

text \<open>The snapping tolerance: the double that the literal \<^verbatim>\<open>1e-3\<close> denotes.\<close>

definition snap_tolerance :: dbl where
  "snap_tolerance = round_double (1 / 1000)"

text \<open>The arithmetic mean of two coordinates, \<^verbatim>\<open>(a + b) / 2.0\<close>.\<close>

definition halfway :: "dbl \<Rightarrow> dbl \<Rightarrow> dbl" where
  "halfway a b = ddiv (dadd a b) (Fin 2)"

text \<open>\<^verbatim>\<open>ls[i]\<close>: undefined outside the linestring.\<close>

definition ls_at :: "Point3d list \<Rightarrow> nat \<Rightarrow> failure + Point3d" where
  "ls_at ps i = (if i < length ps then Inr (ps ! i) else Inl Undefined_behaviour)"

text \<open>
  The choice of the split vertex and of the index \<open>ind\<close> after which the linestring is cut
  (lines 437 to 474 of the source).  \<open>ps\<close> are the points the linestring presents,
  \<open>pt_proj\<close> the projection of the split point onto it and \<open>fresh\<close> the id that
  \<^verbatim>\<open>new_pt\<close> was given.  The second branch of the source tests
  \<^verbatim>\<open>std::distance(std::min_element(d.begin(), d.end()), d.end()) == 0\<close> and reads
  \<^verbatim>\<open>orig_ls[sz]\<close>, one past the last point.
\<close>

definition vertex_distances :: "Point3d list \<Rightarrow> BasicPoint3d \<Rightarrow> dbl list" where
  "vertex_distances ps pt_proj = map (\<lambda>pt_ls. distance pt_proj (basicPoint pt_ls)) ps"

definition split_vertex ::
  "Point3d list \<Rightarrow> BasicPoint3d \<Rightarrow> Id \<Rightarrow> failure + (Point3d \<times> nat)" where
  "split_vertex ps pt_proj fresh =
     (let d = vertex_distances ps pt_proj in
      if d = [] then Inl Undefined_behaviour
      else if dless (d ! min_element d) snap_tolerance then
        (if min_element d = 0 then
           (case ls_at ps 0 of Inl e \<Rightarrow> Inl e | Inr a \<Rightarrow>
            case ls_at ps 1 of Inl e \<Rightarrow> Inl e | Inr b \<Rightarrow>
              (let new_pt = \<lparr>p_id = fresh, p_x = halfway (p_x a) (p_x b),
                             p_y = halfway (p_y a) (p_y b), p_z = halfway (p_z a) (p_z b),
                             p_attrs = []\<rparr>
               in case find_segment_2D new_pt ps of
                    Inl e \<Rightarrow> Inl e | Inr ind \<Rightarrow> Inr (new_pt, ind)))
         else if length d - min_element d = 0 then
           (let sz = length ps in
            case ls_at ps (sz - 1) of Inl e \<Rightarrow> Inl e | Inr a \<Rightarrow>
            case ls_at ps sz of Inl e \<Rightarrow> Inl e | Inr b \<Rightarrow>
              (let new_pt = \<lparr>p_id = fresh, p_x = halfway (p_x a) (p_x b),
                             p_y = halfway (p_y a) (p_y b), p_z = halfway (p_z a) (p_z b),
                             p_attrs = []\<rparr>
               in case find_segment_2D new_pt ps of
                    Inl e \<Rightarrow> Inl e | Inr ind \<Rightarrow> Inr (new_pt, ind)))
         else
           (case ls_at ps (min_element d) of
              Inl e \<Rightarrow> Inl e | Inr v \<Rightarrow> Inr (v, min_element d)))
      else
        (let new_pt = \<lparr>p_id = fresh, p_x = fst pt_proj, p_y = fst (snd pt_proj),
                       p_z = snd (snd pt_proj), p_attrs = []\<rparr>
         in case find_segment_2D new_pt ps of
              Inl e \<Rightarrow> Inl e | Inr ind \<Rightarrow> Inr (new_pt, ind)))"

text \<open>
  \<^verbatim>\<open>split_linestring(orig_ls, new_ls, splitted, new_lss, pt, invert)\<close>.  The library
  function \<^verbatim>\<open>lanelet::geometry::project\<close> is the parameter \<open>project\<close>.  The result holds
  the world, the two handles \<open>orig_ls\<close> and \<open>new_ls\<close> as the caller finds them, and the
  memo \<open>splitted\<close> with its linestrings \<open>new_lss\<close>.
\<close>

definition split_linestring ::
  "(Point3d list \<Rightarrow> BasicPoint3d \<Rightarrow> BasicPoint3d) \<Rightarrow> World \<Rightarrow> LineString3d \<Rightarrow> Id list
     \<Rightarrow> LineString3d list \<Rightarrow> Point3d \<Rightarrow> bool
     \<Rightarrow> failure + (World \<times> LineString3d \<times> LineString3d \<times> Id list \<times> LineString3d list)" where
  "split_linestring project w orig_ls0 splitted new_lss pt inverted =
     (let orig_ls = (if inverted then invert orig_ls0 else orig_ls0) in
      if \<not> used_Id_ls w splitted orig_ls then
        (let ps = points_of w orig_ls;
             pt_proj = project ps (basicPoint pt);
             (fresh, w1) = getId w
         in case split_vertex ps pt_proj fresh of
              Inl e \<Rightarrow> Inl e
            | Inr (new_pt, ind) \<Rightarrow>
                (let (new_id, w2) = getId w1;
                     (new_ls, w3) = new_linestring w2 new_id (new_pt # drop (ind + 1) ps)
                                      (ls_attrs (ls_data w2 orig_ls));
                     w4 = set_points w3 orig_ls (take (ind + 1) ps @ [new_pt])
                 in Inr (w4,
                         (if inverted then invert orig_ls else orig_ls),
                         (if inverted then invert new_ls else new_ls),
                         splitted @ [ls_id (ls_data w4 orig_ls)],
                         new_lss @ [new_ls])))
      else
        (let ind = find_index_of (ls_id (ls_data w orig_ls)) splitted in
         if ind < length new_lss then
           (let new_ls = new_lss ! ind
            in Inr (w,
                    (if inverted then invert orig_ls else orig_ls),
                    (if inverted then invert new_ls else new_ls),
                    splitted, new_lss))
         else Inl Undefined_behaviour))"

subsection \<open>Numbers in strings\<close>

text \<open>\<^verbatim>\<open>std::to_string\<close> of an integer: decimal digits, with a sign when negative.\<close>

definition digit_char :: "nat \<Rightarrow> char" where
  "digit_char d = ''0123456789'' ! d"

fun digits_of :: "nat \<Rightarrow> string" where
  "digits_of n =
     (if n < 10 then [digit_char n] else digits_of (n div 10) @ [digit_char (n mod 10)])"

declare digits_of.simps [simp del]

definition to_string :: "int \<Rightarrow> string" where
  "to_string i = (if i < 0 then CHR ''-'' # digits_of (nat (- i)) else digits_of (nat i))"

definition is_digit :: "char \<Rightarrow> bool" where
  "is_digit c = (c \<in> set ''0123456789'')"

definition digit_value :: "char \<Rightarrow> nat" where
  "digit_value c = length (takeWhile (\<lambda>x. x \<noteq> c) ''0123456789'')"

fun decimal :: "nat \<Rightarrow> string \<Rightarrow> nat" where
  "decimal acc [] = acc"
| "decimal acc (c # cs) = decimal (10 * acc + digit_value c) cs"

text \<open>The characters \<^verbatim>\<open>isspace\<close> accepts in the C locale.\<close>

definition is_space :: "char \<Rightarrow> bool" where
  "is_space c = (c \<in> set [CHR '' '', CHR 0x09, CHR 0x0A, CHR 0x0B, CHR 0x0C, CHR 0x0D])"

text \<open>An optional sign in front of a string: whether it is a minus, and the rest.\<close>

definition take_sign :: "string \<Rightarrow> bool \<times> string" where
  "take_sign s =
     (case s of
        [] \<Rightarrow> (False, [])
      | c # r \<Rightarrow> if c = CHR ''-'' then (True, r) else if c = CHR ''+'' then (False, r)
                 else (False, s))"

text \<open>
  \<^verbatim>\<open>std::stoi\<close>: white space is skipped, then an optional sign and the longest run of
  digits are read; what follows is ignored.  Without a digit it throws
  \<^verbatim>\<open>std::invalid_argument\<close>, with a value outside \<^verbatim>\<open>int\<close> it throws
  \<^verbatim>\<open>std::out_of_range\<close>.
\<close>

definition stoi :: "string \<Rightarrow> failure + int" where
  "stoi s =
     (let (neg, r) = take_sign (dropWhile is_space s);
          ds = takeWhile is_digit r
      in if ds = [] then Inl Invalid_argument
         else (let v = (if neg then - int (decimal 0 ds) else int (decimal 0 ds))
               in if v < - 2147483648 \<or> 2147483647 < v then Inl Out_of_range else Inr v))"

text \<open>
  \<^verbatim>\<open>Attribute::asId()\<close>: the whole value read as a 64-bit integer, nothing when it is
  not one.
\<close>

definition asId :: "string \<Rightarrow> Id option" where
  "asId s =
     (let (neg, ds) = take_sign s
      in if ds = [] \<or> \<not> list_all is_digit ds then None
         else (let v = (if neg then - int (decimal 0 ds) else int (decimal 0 ds))
               in if - 9223372036854775808 \<le> v \<and> v \<le> 9223372036854775807 then Some v
                  else None))"

text \<open>\<^verbatim>\<open>s.find(pat) != std::string::npos\<close>.\<close>

fun starts_with :: "string \<Rightarrow> string \<Rightarrow> bool" where
  "starts_with s [] = True"
| "starts_with [] (p # ps) = False"
| "starts_with (c # cs) (p # ps) = (c = p \<and> starts_with cs ps)"

fun contains :: "string \<Rightarrow> string \<Rightarrow> bool" where
  "contains [] pat = (pat = [])"
| "contains (c # cs) pat = (starts_with (c # cs) pat \<or> contains cs pat)"

text \<open>\<^verbatim>\<open>attributes()[key] = val\<close>: the value of an existing key is replaced, a new key is added.\<close>

definition set_attribute :: "AttributeMap \<Rightarrow> string \<Rightarrow> string \<Rightarrow> AttributeMap" where
  "set_attribute attrs key val =
     (if map_of attrs key = None then attrs @ [(key, val)]
      else map (\<lambda>(k, v). if k = key then (k, val) else (k, v)) attrs)"

subsection \<open>Indexed attribute chains\<close>

text \<open>
  A reference segment names the lanelets it represents under the keys
  \<^verbatim>\<open>ll_id_forward_1\<close>, \<^verbatim>\<open>ll_id_forward_2\<close>, ... and \<^verbatim>\<open>ll_id_backward_1\<close>, ...; the code
  walks a chain with \<^verbatim>\<open>while (seg.hasAttribute(key + std::to_string(i)))\<close>.  Such a
  loop ends because the table is finite and the keys of different indices differ:
  \<open>chain_rest\<close> counts the indices from \<open>i\<close> on whose key is in the table.
\<close>

definition chain_rest :: "string \<Rightarrow> AttributeMap \<Rightarrow> nat \<Rightarrow> nat" where
  "chain_rest key attrs i = card {j. i \<le> j \<and> key @ digits_of j \<in> fst ` set attrs}"

lemma digit_char_inj: "a < 10 \<Longrightarrow> b < 10 \<Longrightarrow> digit_char a = digit_char b \<Longrightarrow> a = b"
  unfolding digit_char_def by (subst (asm) nth_eq_iff_index_eq) auto

lemma digits_of_nonempty: "digits_of n \<noteq> []"
  by (subst digits_of.simps) simp

lemma digits_of_inj: "digits_of n = digits_of m \<Longrightarrow> n = m"
proof (induction n arbitrary: m rule: digits_of.induct)
  case (1 n)
  show ?case
  proof (cases "n < 10")
    case True
    show ?thesis
    proof (cases "m < 10")
      case m: True
      from "1.prems" True m have "digit_char n = digit_char m"
        by (simp add: digits_of.simps)
      with True m show ?thesis by (rule digit_char_inj)
    next
      case m: False
      from "1.prems" True m have "digits_of (m div 10) = []"
        by (simp add: digits_of.simps[of n] digits_of.simps[of m])
      with digits_of_nonempty show ?thesis by blast
    qed
  next
    case False
    show ?thesis
    proof (cases "m < 10")
      case m: True
      from "1.prems" False m have "digits_of (n div 10) = []"
        by (simp add: digits_of.simps[of n] digits_of.simps[of m])
      with digits_of_nonempty show ?thesis by blast
    next
      case m: False
      from "1.prems" False m have e: "digits_of (n div 10) = digits_of (m div 10)"
         "digit_char (n mod 10) = digit_char (m mod 10)"
        by (simp_all add: digits_of.simps[of n] digits_of.simps[of m])
      from "1.IH"[OF False e(1)] have d: "n div 10 = m div 10" .
      from e(2) have "n mod 10 = m mod 10" by (intro digit_char_inj) auto
      with d show ?thesis by (metis div_mult_mod_eq)
    qed
  qed
qed

lemma chain_rest_finite: "finite {j. i \<le> j \<and> key @ digits_of j \<in> fst ` set attrs}"
proof -
  have "inj (\<lambda>j. key @ digits_of j)"
    by (rule injI) (auto dest: digits_of_inj)
  then have "finite ((\<lambda>j. key @ digits_of j) -` (fst ` set attrs))"
    by (intro finite_vimageI) auto
  moreover have "{j. i \<le> j \<and> key @ digits_of j \<in> fst ` set attrs}
      \<subseteq> (\<lambda>j. key @ digits_of j) -` (fst ` set attrs)" by auto
  ultimately show ?thesis by (rule rev_finite_subset)
qed

lemma chain_rest_decreases:
  assumes "map_of attrs (key @ digits_of i) \<noteq> None"
  shows "chain_rest key attrs (Suc i) < chain_rest key attrs i"
proof -
  from assms have "key @ digits_of i \<in> fst ` set attrs"
    by (auto simp: map_of_eq_None_iff)
  then have "i \<in> {j. i \<le> j \<and> key @ digits_of j \<in> fst ` set attrs}" by simp
  moreover have "i \<notin> {j. Suc i \<le> j \<and> key @ digits_of j \<in> fst ` set attrs}" by simp
  moreover have "{j. Suc i \<le> j \<and> key @ digits_of j \<in> fst ` set attrs}
      \<subseteq> {j. i \<le> j \<and> key @ digits_of j \<in> fst ` set attrs}" by auto
  ultimately have "{j. Suc i \<le> j \<and> key @ digits_of j \<in> fst ` set attrs}
      \<subset> {j. i \<le> j \<and> key @ digits_of j \<in> fst ` set attrs}" by blast
  then show ?thesis unfolding chain_rest_def
    by (intro psubset_card_mono chain_rest_finite)
qed

subsection \<open>Lanelets and the map\<close>

definition ll_data :: "World \<Rightarrow> Lanelet \<Rightarrow> LaneletData" where
  "ll_data w ll = ll_heap w ! ll_ptr ll"

definition lanelet_id :: "World \<Rightarrow> Lanelet \<Rightarrow> Id" where
  "lanelet_id w ll = ll_id (ll_data w ll)"

text \<open>The bounds of an inverted lanelet are the inverted bounds of the other side.\<close>

definition leftBound :: "World \<Rightarrow> Lanelet \<Rightarrow> LineString3d" where
  "leftBound w ll =
     (if ll_inverted ll then invert (ll_right (ll_data w ll)) else ll_left (ll_data w ll))"

definition rightBound :: "World \<Rightarrow> Lanelet \<Rightarrow> LineString3d" where
  "rightBound w ll =
     (if ll_inverted ll then invert (ll_left (ll_data w ll)) else ll_right (ll_data w ll))"

text \<open>The constructor \<^verbatim>\<open>Lanelet(id, left, right, attributes)\<close>: fresh data.\<close>

definition new_lanelet ::
  "World \<Rightarrow> Id \<Rightarrow> LineString3d \<Rightarrow> LineString3d \<Rightarrow> AttributeMap \<Rightarrow> Lanelet \<times> World" where
  "new_lanelet w i l r attrs =
     (\<lparr>ll_ptr = length (ll_heap w), ll_inverted = False\<rparr>,
      w\<lparr>ll_heap := ll_heap w @ [\<lparr>ll_id = i, ll_attrs = attrs, ll_left = l, ll_right = r\<rparr>]\<rparr>)"

text \<open>
  \<^verbatim>\<open>lanelet::Lanelet empty;\<close>: a lanelet with the invalid id 0 and two fresh linestrings
  without points.
\<close>

definition InvalId :: Id where
  "InvalId = 0"

definition empty_lanelet :: "World \<Rightarrow> Lanelet \<times> World" where
  "empty_lanelet w =
     (let (l, w1) = new_linestring w InvalId [] [];
          (r, w2) = new_linestring w1 InvalId [] []
      in new_lanelet w2 InvalId l r [])"

text \<open>
  Areas, regulatory elements and polygons: the conflation only hands them on, so they
  are an id and an attribute table.
\<close>

record Primitive =
  pr_id :: Id
  pr_attrs :: AttributeMap

text \<open>
  The object behind \<^verbatim>\<open>map_ptr\<close>.  Each layer is a list in the order of its iteration.
  The linestring layer is not kept: the code reaches linestrings through lanelets only.
\<close>

record LaneletMap =
  pointLayer :: "Point3d list"
  laneletLayer :: "Lanelet list"
  areaLayer :: "Primitive list"
  regulatoryElementLayer :: "Primitive list"
  polygonLayer :: "Primitive list"

text \<open>
  \<^verbatim>\<open>LaneletMap::add\<close> for a lanelet, as far as the lanelet layer goes: a lanelet with
  the invalid id is given a fresh one, a lanelet whose id the layer holds already is not
  added again.
\<close>

definition add_lanelet :: "World \<Rightarrow> LaneletMap \<Rightarrow> Lanelet \<Rightarrow> World \<times> LaneletMap" where
  "add_lanelet w m ll =
     (if lanelet_id w ll = InvalId then
        (let (i, w1) = getId w;
             w2 = w1\<lparr>ll_heap := (ll_heap w1)[ll_ptr ll := (ll_data w1 ll)\<lparr>ll_id := i\<rparr>]\<rparr>
         in (w2, m\<lparr>laneletLayer := laneletLayer m @ [ll]\<rparr>))
      else if lanelet_id w ll \<in> lanelet_id w ` set (laneletLayer m) then (w, m)
      else (w, m\<lparr>laneletLayer := laneletLayer m @ [ll]\<rparr>))"


text \<open>
  \<^verbatim>\<open>find_ll(map_ptr, id)\<close>: the lanelet of the layer with that id, or a new empty lanelet
  (after a message on \<^verbatim>\<open>std::cerr\<close>).
\<close>

definition find_ll :: "World \<Rightarrow> LaneletMap \<Rightarrow> Id \<Rightarrow> Lanelet \<times> World" where
  "find_ll w m i =
     (case find (\<lambda>ll. lanelet_id w ll = i) (laneletLayer m) of
        Some ll \<Rightarrow> (ll, w)
      | None \<Rightarrow> empty_lanelet w)"

text \<open>\<^verbatim>\<open>ll.attributes()[key] = val\<close> on the shared data of the lanelet.\<close>

definition set_ll_attribute :: "World \<Rightarrow> Lanelet \<Rightarrow> string \<Rightarrow> string \<Rightarrow> World" where
  "set_ll_attribute w ll key val =
     w\<lparr>ll_heap := (ll_heap w)
          [ll_ptr ll := (ll_data w ll)\<lparr>ll_attrs := set_attribute (ll_attrs (ll_data w ll)) key val\<rparr>]\<rparr>"

text \<open>\<^verbatim>\<open>used_Id(ids, ll)\<close> and \<^verbatim>\<open>used_Id(cols, ll)\<close>.\<close>

definition used_Id_ll :: "World \<Rightarrow> Id list \<Rightarrow> Lanelet \<Rightarrow> bool" where
  "used_Id_ll w ids ll = (lanelet_id w ll \<in> set ids)"

definition used_Id_cols :: "World \<Rightarrow> (Id \<times> string) list \<Rightarrow> Lanelet \<Rightarrow> bool" where
  "used_Id_cols w cols ll = (lanelet_id w ll \<in> fst ` set cols)"

text \<open>
  The two library functions the conflation is built on and whose geometry is not
  modelled: \<^verbatim>\<open>lanelet::geometry::project\<close> (the point of a linestring closest to a point)
  and \<^verbatim>\<open>lanelet::geometry::follows\<close> (the second lanelet starts where the first ends).
\<close>

record Geometry =
  geo_project :: "Point3d list \<Rightarrow> BasicPoint3d \<Rightarrow> BasicPoint3d"
  geo_follows :: "World \<Rightarrow> Lanelet \<Rightarrow> Lanelet \<Rightarrow> bool"

subsection \<open>Matches\<close>

text \<open>
  A match pairs a reference route of the lanelet map with a target route of the street
  network.  The segments of both routes are linestrings owned by the match.
\<close>

record s_match =
  ref_pline :: "LineStringData list"
  target_pline :: "LineStringData list"

text \<open>
  Modelled from the spec: \<^verbatim>\<open>s_match::update_ref_tags(key, orig_id, new_id, ind)\<close> is
  declared outside the files at hand.  It replaces, in the segment at index \<open>ind\<close> and
  at the chain key \<open>key\<close>, the id of the lanelet that was split by the id of the new
  lanelet.
\<close>

definition update_ref_tags :: "s_match \<Rightarrow> string \<Rightarrow> Id \<Rightarrow> Id \<Rightarrow> nat \<Rightarrow> s_match" where
  "update_ref_tags match key orig_id new_id ind =
     (if ind < length (ref_pline match) \<and>
         Option.bind (map_of (ls_attrs (ref_pline match ! ind)) key) asId = Some orig_id
      then match\<lparr>ref_pline := (ref_pline match)
             [ind := (ref_pline match ! ind)
                \<lparr>ls_attrs := set_attribute (ls_attrs (ref_pline match ! ind)) key
                               (to_string new_id)\<rparr>]\<rparr>
      else match)"

text \<open>The values of a chain, read as the loops of the code read it.\<close>

function chain_values :: "string \<Rightarrow> AttributeMap \<Rightarrow> nat \<Rightarrow> string list" where
  "chain_values key attrs i =
     (case map_of attrs (key @ digits_of i) of
        None \<Rightarrow> []
      | Some v \<Rightarrow> v # chain_values key attrs (Suc i))"
  by pat_completeness auto
termination
  by (relation "measure (\<lambda>(key, attrs, i). chain_rest key attrs i)")
     (auto intro: chain_rest_decreases)

declare chain_values.simps [simp del]

text \<open>The keys of a chain that holds \<open>n\<close> lanelets.\<close>

fun chain_keys :: "string \<Rightarrow> nat \<Rightarrow> string list" where
  "chain_keys key 0 = []"
| "chain_keys key (Suc n) = chain_keys key n @ [key @ digits_of (Suc n)]"

text \<open>
  Modelled from the spec: \<^verbatim>\<open>s_match::remove_tag_ref_pline(id)\<close> is declared outside
  the files at hand.  It strips the chain entry of the lanelet from the reference
  segments that hold it; a chain is re-indexed when a lanelet is removed, so that its
  keys stay contiguous from 1.
\<close>

definition remove_from_chain :: "string \<Rightarrow> Id \<Rightarrow> AttributeMap \<Rightarrow> AttributeMap" where
  "remove_from_chain key i attrs =
     (let old = chain_values key attrs 1;
          kept = filter (\<lambda>v. asId v \<noteq> Some i) old
      in filter (\<lambda>(k, v). k \<notin> set (chain_keys key (length old))) attrs
         @ zip (chain_keys key (length kept)) kept)"

definition remove_tag_ref_pline :: "s_match \<Rightarrow> Id \<Rightarrow> s_match" where
  "remove_tag_ref_pline match i =
     match\<lparr>ref_pline :=
       map (\<lambda>seg. seg\<lparr>ls_attrs := remove_from_chain ''ll_id_backward_'' i
                                      (remove_from_chain ''ll_id_forward_'' i (ls_attrs seg))\<rparr>)
           (ref_pline match)\<rparr>"

subsection \<open>Helpers of the conflation\<close>

text \<open>Sequencing of steps that may fail: the first failure is the result.\<close>

definition and_then :: "failure + 'a \<Rightarrow> ('a \<Rightarrow> failure + 'b) \<Rightarrow> failure + 'b" where
  "and_then r f = (case r of Inl e \<Rightarrow> Inl e | Inr a \<Rightarrow> f a)"

lemma and_then_cong [fundef_cong]:
  "r = r' \<Longrightarrow> (\<And>a. r' = Inr a \<Longrightarrow> f a = f' a) \<Longrightarrow> and_then r f = and_then r' f'"
  by (auto simp: and_then_def split: sum.splits)

text \<open>\<^verbatim>\<open>ls.back()\<close>: undefined on a linestring without points.\<close>

definition ls_back :: "LineStringData \<Rightarrow> failure + Point3d" where
  "ls_back ls = (if ls_points ls = [] then Inl Undefined_behaviour else Inr (last (ls_points ls)))"

text \<open>\<^verbatim>\<open>v[i]\<close> on a vector: undefined outside it.\<close>

definition vec_at :: "'a list \<Rightarrow> nat \<Rightarrow> failure + 'a" where
  "vec_at v i = (if i < length v then Inr (v ! i) else Inl Undefined_behaviour)"

text \<open>
  \<^verbatim>\<open>get_index(match, pt)\<close>: the index of the reference segment whose two end points
  are closest to \<open>pt\<close> in sum; 0 for an empty reference route.
\<close>

fun endpoint_distances :: "LineStringData list \<Rightarrow> Point3d \<Rightarrow> failure + dbl list" where
  "endpoint_distances [] pt = Inr []"
| "endpoint_distances (seg # segs) pt =
     and_then (ls_front seg) (\<lambda>f.
     and_then (ls_back seg) (\<lambda>b.
     and_then (endpoint_distances segs pt) (\<lambda>d.
       Inr (dadd (distance2d f pt) (distance2d b pt) # d))))"

definition get_index :: "s_match \<Rightarrow> Point3d \<Rightarrow> failure + nat" where
  "get_index match pt =
     and_then (endpoint_distances (ref_pline match) pt) (\<lambda>d. Inr (min_element d))"

text \<open>The loops \<^verbatim>\<open>for (const auto & pt : pts) ind_change.push_back(get_index(match, pt))\<close>.\<close>

fun get_indices :: "s_match \<Rightarrow> Point3d list \<Rightarrow> failure + nat list" where
  "get_indices match [] = Inr []"
| "get_indices match (pt # pts) =
     and_then (get_index match pt) (\<lambda>i.
     and_then (get_indices match pts) (\<lambda>is. Inr (i # is)))"

text \<open>
  \<^verbatim>\<open>std::atan\<close> and \<^verbatim>\<open>std::atan2\<close>, taken as correctly rounded, with the one zero of
  the model read as positive.
\<close>

fun datan :: "dbl \<Rightarrow> dbl" where
  "datan (Fin a) = round_double (arctan a)"
| "datan PInf = round_double (pi / 2)"
| "datan NInf = round_double (- pi / 2)"
| "datan NaN = NaN"

fun datan2 :: "dbl \<Rightarrow> dbl \<Rightarrow> dbl" where
  "datan2 (Fin y) (Fin x) =
     (if 0 < x then round_double (arctan (y / x))
      else if x < 0 then
        (if 0 \<le> y then round_double (arctan (y / x) + pi)
         else round_double (arctan (y / x) - pi))
      else if 0 < y then round_double (pi / 2) else if y < 0 then round_double (- pi / 2) else Fin 0)"
| "datan2 NaN x = NaN"
| "datan2 y NaN = NaN"
| "datan2 (Fin y) PInf = Fin 0"
| "datan2 (Fin y) NInf = (if 0 \<le> y then round_double pi else round_double (- pi))"
| "datan2 PInf (Fin x) = round_double (pi / 2)"
| "datan2 NInf (Fin x) = round_double (- pi / 2)"
| "datan2 PInf PInf = round_double (pi / 4)"
| "datan2 PInf NInf = round_double (3 * pi / 4)"
| "datan2 NInf PInf = round_double (- pi / 4)"
| "datan2 NInf NInf = round_double (- 3 * pi / 4)"

text \<open>
  \<^verbatim>\<open>same_direction(match)\<close>: the angle between the vectors from the first to the last
  point of the two routes is below a right angle.
\<close>

definition same_direction :: "s_match \<Rightarrow> failure + bool" where
  "same_direction match =
     (if ref_pline match \<noteq> [] \<and> target_pline match \<noteq> [] then
        and_then (ls_back (last (ref_pline match))) (\<lambda>rb.
        and_then (ls_front (hd (ref_pline match))) (\<lambda>rf.
        and_then (ls_back (last (target_pline match))) (\<lambda>tb.
        and_then (ls_front (hd (target_pline match))) (\<lambda>tf.
          (let v1x = dsub (p_x rb) (p_x rf); v1y = dsub (p_y rb) (p_y rf);
               v2x = dsub (p_x tb) (p_x tf); v2y = dsub (p_y tb) (p_y tf);
               angle = datan2 (dsub (dmul v1x v2y) (dmul v2x v1y))
                              (dadd (dmul v1x v2x) (dmul v1y v2y))
           in Inr (dless (dabs angle) (dmul (datan (Fin 1)) (Fin 2))))))))
      else Inr False)"

text \<open>
  \<^verbatim>\<open>merge_point_vec\<close>: the points of all vectors in order, each once.  Two point handles
  are equal when they are the same point of the map; the model compares the points.
\<close>

definition merge_point_vec :: "Point3d list list \<Rightarrow> Point3d list" where
  "merge_point_vec pts_change =
     fold (\<lambda>pt pts_merged. if pt \<in> set pts_merged then pts_merged else pts_merged @ [pt])
       (concat pts_change) []"

text \<open>
  The value that is active on the reference segment \<open>ind\<close>: the first value, replaced
  by \<^verbatim>\<open>values[j + 1]\<close> for every \<open>j\<close> with \<^verbatim>\<open>ind >= ind_change[j]\<close>.  The vector must
  not be empty.
\<close>

fun active_value_from :: "string list \<Rightarrow> nat \<Rightarrow> nat list \<Rightarrow> nat \<Rightarrow> string \<Rightarrow> failure + string" where
  "active_value_from vals ind [] j val = Inr val"
| "active_value_from vals ind (c # cs) j val =
     (if c \<le> ind then
        and_then (vec_at vals (j + 1)) (\<lambda>v. active_value_from vals ind cs (Suc j) v)
      else active_value_from vals ind cs (Suc j) val)"

definition active_value :: "string list \<Rightarrow> nat list \<Rightarrow> nat \<Rightarrow> failure + string" where
  "active_value vals ind_change ind =
     and_then (vec_at vals 0) (\<lambda>v. active_value_from vals ind ind_change 0 v)"

text \<open>\<^verbatim>\<open>highway2subtype_location\<close>: subtype and location for a value of the highway tag.\<close>

definition highway2subtype_location :: "string \<Rightarrow> string \<times> string" where
  "highway2subtype_location val_osm =
     (if val_osm \<in> set [''motorway'', ''trunk'', ''motorway_link'', ''trunk_link'']
      then (''highway'', ''nonurban'')
      else if val_osm \<in> set [''primary'', ''secondary'', ''tertiary'', ''unclassified'',
                              ''residential'', ''primary_link'', ''secondary_link'',
                              ''tertiary_link'', ''service'']
      then (''road'', ''urban'')
      else if val_osm = ''living_street'' then (''play_street'', [])
      else if val_osm = ''busway'' then (''bus_lane'', ''urban'')
      else if val_osm = ''cycleway'' then (''bicycle_lane'', [])
      else ([], []))"

text \<open>
  \<^verbatim>\<open>set_value_dir(key, seg, map_ptr, key_ref, val, setll)\<close>: the value is written to every
  lanelet of the chain whose id is not in \<open>setll\<close> yet.  The first argument is the loop
  counter \<open>i\<close>; a chain entry that does not hold an id makes \<^verbatim>\<open>*asId()\<close> undefined.
\<close>

function set_value_dir_from ::
  "nat \<Rightarrow> string \<Rightarrow> LineStringData \<Rightarrow> LaneletMap \<Rightarrow> string \<Rightarrow> string \<Rightarrow> World \<Rightarrow> Id list
     \<Rightarrow> failure + (World \<times> Id list)" where
  "set_value_dir_from i key seg m key_ref val w setll =
     (case map_of (ls_attrs seg) (key @ digits_of i) of
        None \<Rightarrow> Inr (w, setll)
      | Some a \<Rightarrow>
          (case asId a of
             None \<Rightarrow> Inl Undefined_behaviour
           | Some ident \<Rightarrow>
               (case find_ll w m ident of (ll, w1) \<Rightarrow>
                  if \<not> used_Id_ll w1 setll ll then
                    set_value_dir_from (Suc i) key seg m key_ref val
                      (set_ll_attribute w1 ll key_ref val) (setll @ [lanelet_id w1 ll])
                  else set_value_dir_from (Suc i) key seg m key_ref val w1 setll)))"
  by pat_completeness auto
termination
  by (relation "measure (\<lambda>(i, key, seg, m, key_ref, val, w, setll).
                   chain_rest key (ls_attrs seg) i)")
     (auto intro: chain_rest_decreases)

declare set_value_dir_from.simps [simp del]

definition set_value_dir ::
  "string \<Rightarrow> LineStringData \<Rightarrow> LaneletMap \<Rightarrow> string \<Rightarrow> string \<Rightarrow> World \<Rightarrow> Id list
     \<Rightarrow> failure + (World \<times> Id list)" where
  "set_value_dir key seg m key_ref val w setll = set_value_dir_from 1 key seg m key_ref val w setll"

text \<open>\<^verbatim>\<open>count_lanes_dir(key, seg, count)\<close>: the count grows by the length of the chain.\<close>

function count_lanes_dir_from :: "nat \<Rightarrow> string \<Rightarrow> LineStringData \<Rightarrow> int \<Rightarrow> int" where
  "count_lanes_dir_from i key seg count =
     (if map_of (ls_attrs seg) (key @ digits_of i) \<noteq> None
      then count_lanes_dir_from (Suc i) key seg (count + 1)
      else count)"
  by pat_completeness auto
termination
  by (relation "measure (\<lambda>(i, key, seg, count). chain_rest key (ls_attrs seg) i)")
     (auto intro: chain_rest_decreases)

declare count_lanes_dir_from.simps [simp del]

definition count_lanes_dir :: "string \<Rightarrow> LineStringData \<Rightarrow> int \<Rightarrow> int" where
  "count_lanes_dir key seg count = count_lanes_dir_from 1 key seg count"

text \<open>
  \<^verbatim>\<open>set_color_code_dir(key, seg, map_ptr, col_code, cols)\<close>: every lanelet of the chain
  whose id has no entry in \<open>cols\<close> yet gets one with the colour.
\<close>

function set_color_code_dir_from ::
  "nat \<Rightarrow> string \<Rightarrow> LineStringData \<Rightarrow> LaneletMap \<Rightarrow> string \<Rightarrow> World \<Rightarrow> (Id \<times> string) list
     \<Rightarrow> failure + (World \<times> (Id \<times> string) list)" where
  "set_color_code_dir_from i key seg m col_code w cols =
     (case map_of (ls_attrs seg) (key @ digits_of i) of
        None \<Rightarrow> Inr (w, cols)
      | Some a \<Rightarrow>
          (case asId a of
             None \<Rightarrow> Inl Undefined_behaviour
           | Some ident \<Rightarrow>
               (case find_ll w m ident of (ll, w1) \<Rightarrow>
                  if \<not> used_Id_cols w1 cols ll then
                    set_color_code_dir_from (Suc i) key seg m col_code w1
                      (cols @ [(lanelet_id w1 ll, col_code)])
                  else set_color_code_dir_from (Suc i) key seg m col_code w1 cols)))"
  by pat_completeness auto
termination
  by (relation "measure (\<lambda>(i, key, seg, m, col_code, w, cols).
                   chain_rest key (ls_attrs seg) i)")
     (auto intro: chain_rest_decreases)

declare set_color_code_dir_from.simps [simp del]

definition set_color_code_dir ::
  "string \<Rightarrow> LineStringData \<Rightarrow> LaneletMap \<Rightarrow> string \<Rightarrow> World \<Rightarrow> (Id \<times> string) list
     \<Rightarrow> failure + (World \<times> (Id \<times> string) list)" where
  "set_color_code_dir key seg m col_code w cols =
     set_color_code_dir_from 1 key seg m col_code w cols"

subsection \<open>Tag propagation\<close>

text \<open>
  The loop of \<^verbatim>\<open>set_type_location\<close> over the reference segments; \<open>ind\<close> counts them,
  and the two id vectors record the lanelets whose subtype and location were written.
\<close>

fun set_type_location_segs ::
  "LaneletMap \<Rightarrow> string list \<Rightarrow> nat list \<Rightarrow> LineStringData list \<Rightarrow> nat \<Rightarrow> World \<Rightarrow> Id list
     \<Rightarrow> Id list \<Rightarrow> failure + (World \<times> Id list \<times> Id list)" where
  "set_type_location_segs m vals ind_change [] ind w set_ll_subtype set_ll_location =
     Inr (w, set_ll_subtype, set_ll_location)"
| "set_type_location_segs m vals ind_change (seg # segs) ind w set_ll_subtype set_ll_location =
     and_then (active_value vals ind_change ind) (\<lambda>val.
       (case highway2subtype_location val of (subtype, location) \<Rightarrow>
        and_then (set_value_dir ''ll_id_forward_'' seg m ''subtype'' subtype w set_ll_subtype)
          (\<lambda>(w1, s1).
        and_then (set_value_dir ''ll_id_backward_'' seg m ''subtype'' subtype w1 s1)
          (\<lambda>(w2, s2).
        and_then (set_value_dir ''ll_id_forward_'' seg m ''location'' location w2 set_ll_location)
          (\<lambda>(w3, l1).
        and_then (set_value_dir ''ll_id_backward_'' seg m ''location'' location w3 l1)
          (\<lambda>(w4, l2).
        set_type_location_segs m vals ind_change segs (Suc ind) w4 s2 l2))))))"

text \<open>
  \<^verbatim>\<open>set_type_location(map_ptr, match, pts_change, values)\<close>.  The vector \<open>values\<close> is
  reversed in place when the routes run against each other; the caller does not read it
  again, so the result is the world.
\<close>

definition set_type_location ::
  "World \<Rightarrow> LaneletMap \<Rightarrow> s_match \<Rightarrow> Point3d list \<Rightarrow> string list \<Rightarrow> failure + World" where
  "set_type_location w m match pts_change vals =
     (if vals \<noteq> [] then
        and_then (get_indices match pts_change) (\<lambda>ind_change.
        and_then (same_direction match) (\<lambda>same.
        and_then (set_type_location_segs m (if \<not> same then rev vals else vals) ind_change
                    (ref_pline match) 0 w [] [])
          (\<lambda>(w1, s, l). Inr w1)))
      else Inr w)"

text \<open>The loop of \<^verbatim>\<open>transfer_tag\<close> over the reference segments.\<close>

fun transfer_tag_segs ::
  "LaneletMap \<Rightarrow> string \<Rightarrow> string list \<Rightarrow> nat list \<Rightarrow> LineStringData list \<Rightarrow> nat \<Rightarrow> World
     \<Rightarrow> Id list \<Rightarrow> failure + (World \<times> Id list)" where
  "transfer_tag_segs m key_ref vals ind_change [] ind w setll = Inr (w, setll)"
| "transfer_tag_segs m key_ref vals ind_change (seg # segs) ind w setll =
     and_then (active_value vals ind_change ind) (\<lambda>val.
     and_then (set_value_dir ''ll_id_forward_'' seg m key_ref val w setll) (\<lambda>(w1, s1).
     and_then (set_value_dir ''ll_id_backward_'' seg m key_ref val w1 s1) (\<lambda>(w2, s2).
     transfer_tag_segs m key_ref vals ind_change segs (Suc ind) w2 s2)))"

definition transfer_tag ::
  "s_match \<Rightarrow> string \<Rightarrow> nat list \<Rightarrow> string list \<Rightarrow> LaneletMap \<Rightarrow> World \<Rightarrow> Id list
     \<Rightarrow> failure + (World \<times> Id list)" where
  "transfer_tag match key_ref ind_change vals m w setll =
     (if vals \<noteq> [] then
        and_then (same_direction match) (\<lambda>same.
          transfer_tag_segs m key_ref (if \<not> same then rev vals else vals) ind_change
            (ref_pline match) 0 w setll)
      else Inr (w, setll))"

definition transfer_att ::
  "World \<Rightarrow> LaneletMap \<Rightarrow> s_match \<Rightarrow> string \<Rightarrow> Point3d list \<Rightarrow> string list \<Rightarrow> failure + World" where
  "transfer_att w m match ref_key pts_change vals =
     and_then (get_indices match pts_change) (\<lambda>ind_change.
     and_then (transfer_tag match ref_key ind_change vals m w []) (\<lambda>(w1, set_ll). Inr w1))"

subsection \<open>Splitting lanelets\<close>

lemma set_attribute_keys:
  "map_of attrs key \<noteq> None \<Longrightarrow> fst ` set (set_attribute attrs key val) = fst ` set attrs"
  by (force simp: set_attribute_def)

lemma chain_rest_update_ref_tags:
  "chain_rest key (ls_attrs (ref_pline (update_ref_tags match k orig_id new_id ind) ! ind)) j
     = chain_rest key (ls_attrs (ref_pline match ! ind)) j"
proof (cases "ind < length (ref_pline match) \<and>
         Option.bind (map_of (ls_attrs (ref_pline match ! ind)) k) asId = Some orig_id")
  case True
  then have "map_of (ls_attrs (ref_pline match ! ind)) k \<noteq> None" by (auto simp: bind_eq_Some_conv)
  from set_attribute_keys[OF this] True show ?thesis
    by (simp add: update_ref_tags_def chain_rest_def)
next
  case False
  then show ?thesis by (auto simp: update_ref_tags_def)
qed

text \<open>
  The state that \<^verbatim>\<open>split_lanelet\<close> and \<^verbatim>\<open>split_ll_dir\<close> work on: the world, the map,
  the match and the memo of the pass, \<open>splitted\<close> with \<open>newLss\<close>.
\<close>

type_synonym split_state = "World \<times> LaneletMap \<times> s_match \<times> Id list \<times> LineString3d list"

text \<open>
  \<^verbatim>\<open>split_ll_dir(map_ptr, match, ind, key, splitted, newls, pt)\<close>, with the loop counter
  \<open>i\<close> as first argument.  \<^verbatim>\<open>match.ref_pline()[ind]\<close> is undefined outside the route.
\<close>

function split_ll_dir_from ::
  "nat \<Rightarrow> Geometry \<Rightarrow> nat \<Rightarrow> string \<Rightarrow> Point3d \<Rightarrow> split_state \<Rightarrow> failure + split_state" where
  "split_ll_dir_from i geo ind key pt (w, m, match, splitted, newls) =
     (if ind < length (ref_pline match) then
        (case map_of (ls_attrs (ref_pline match ! ind)) (key @ digits_of i) of
           None \<Rightarrow> Inr (w, m, match, splitted, newls)
         | Some a \<Rightarrow>
             (case asId a of
                None \<Rightarrow> Inl Undefined_behaviour
              | Some ident \<Rightarrow>
                  (case find_ll w m ident of (orig, w1) \<Rightarrow>
                   case split_linestring (geo_project geo) w1 (leftBound w1 orig) splitted newls
                          pt (contains key ''backward'') of
                     Inl e \<Rightarrow> Inl e
                   | Inr (w2, left, new_left, splitted2, newls2) \<Rightarrow>
                   case split_linestring (geo_project geo) w2 (rightBound w2 orig) splitted2
                          newls2 pt (contains key ''backward'') of
                     Inl e \<Rightarrow> Inl e
                   | Inr (w3, right, new_right, splitted3, newls3) \<Rightarrow>
                   case getId w3 of (new_id, w4) \<Rightarrow>
                   case new_lanelet w4 new_id new_left new_right (ll_attrs (ll_data w4 orig)) of
                     (new_ll, w5) \<Rightarrow>
                   case add_lanelet w5 m new_ll of (w6, m1) \<Rightarrow>
                     split_ll_dir_from (Suc i) geo ind key pt
                       (w6, m1,
                        update_ref_tags match (key @ digits_of i) (lanelet_id w6 orig)
                          (lanelet_id w6 new_ll) ind,
                        splitted3, newls3))))
      else Inl Undefined_behaviour)"
  by pat_completeness auto
termination
  by (relation "measure (\<lambda>(i, geo, ind, key, pt, (w, m, match, splitted, newls)).
                   chain_rest key (ls_attrs (ref_pline match ! ind)) i)")
     (auto simp: chain_rest_update_ref_tags intro: chain_rest_decreases)

declare split_ll_dir_from.simps [simp del]

definition split_ll_dir ::
  "Geometry \<Rightarrow> nat \<Rightarrow> string \<Rightarrow> Point3d \<Rightarrow> split_state \<Rightarrow> failure + split_state" where
  "split_ll_dir geo ind key pt st = split_ll_dir_from 1 geo ind key pt st"

text \<open>The loop of \<^verbatim>\<open>split_lanelet\<close> over the split points.\<close>

fun split_lanelet_pts :: "Geometry \<Rightarrow> Point3d list \<Rightarrow> split_state \<Rightarrow> failure + split_state" where
  "split_lanelet_pts geo [] st = Inr st"
| "split_lanelet_pts geo (pt # pts) (w, m, match, splitted, newLss) =
     and_then (get_index match pt) (\<lambda>ind.
     and_then (split_ll_dir geo ind ''ll_id_forward_'' pt (w, m, match, splitted, newLss)) (\<lambda>st1.
     and_then (split_ll_dir geo ind ''ll_id_backward_'' pt st1) (\<lambda>st2.
     split_lanelet_pts geo pts st2)))"

definition split_lanelet ::
  "Geometry \<Rightarrow> World \<Rightarrow> LaneletMap \<Rightarrow> s_match \<Rightarrow> Point3d list
     \<Rightarrow> failure + (World \<times> LaneletMap \<times> s_match)" where
  "split_lanelet geo w m match pts =
     and_then (split_lanelet_pts geo pts (w, m, match, [], []))
       (\<lambda>(w1, m1, match1, splitted, newLss). Inr (w1, m1, match1))"

text \<open>
  \<^verbatim>\<open>split_on_tag_change\<close>: the change points and values of all keys are appended to
  \<open>pts_change\<close> and \<open>values\<close>, and the lanelets are split at the merged change points.
\<close>

definition split_on_tag_change ::
  "Geometry \<Rightarrow> World \<Rightarrow> LaneletMap \<Rightarrow> s_match \<Rightarrow> string list \<Rightarrow> Point3d list list
     \<Rightarrow> string list list
     \<Rightarrow> failure + (World \<times> LaneletMap \<times> s_match \<times> Point3d list list \<times> string list list)" where
  "split_on_tag_change geo w m match target_keys pts_change vals =
     and_then (check_tag_change (target_pline match) target_keys pts_change vals)
       (\<lambda>(pts_change1, vals1).
          if merge_point_vec pts_change1 \<noteq> [] then
            and_then (split_lanelet geo w m match (merge_point_vec pts_change1))
              (\<lambda>(w1, m1, match1). Inr (w1, m1, match1, pts_change1, vals1))
          else Inr (w, m, match, pts_change1, vals1))"

subsection \<open>Lane-count reconciliation\<close>

text \<open>
  \<^verbatim>\<open>find_wrong_lanelet_candidates\<close>: the lanelets named by the attributes of the segment
  whose key contains \<^verbatim>\<open>forward\<close> or \<^verbatim>\<open>backward\<close>, in the order of the table.
\<close>

fun find_wrong_lanelet_candidates ::
  "LaneletMap \<Rightarrow> AttributeMap \<Rightarrow> World \<Rightarrow> Lanelet list \<Rightarrow> failure + (World \<times> Lanelet list)" where
  "find_wrong_lanelet_candidates m [] w cand = Inr (w, cand)"
| "find_wrong_lanelet_candidates m ((k, v) # attrs) w cand =
     (if contains k ''forward'' \<or> contains k ''backward'' then
        (case asId v of
           None \<Rightarrow> Inl Undefined_behaviour
         | Some ident \<Rightarrow>
             (case find_ll w m ident of (ll, w1) \<Rightarrow>
                find_wrong_lanelet_candidates m attrs w1 (cand @ [ll])))
      else find_wrong_lanelet_candidates m attrs w cand)"

text \<open>
  The two inner loops of \<^verbatim>\<open>find_wrong_lanelet\<close>: some other lanelet of the map is
  followed by \<open>ll\<close>, and \<open>ll\<close> is followed by some other lanelet of the map.
\<close>

definition has_predecessor :: "Geometry \<Rightarrow> World \<Rightarrow> LaneletMap \<Rightarrow> Lanelet \<Rightarrow> bool" where
  "has_predecessor geo w m ll =
     (\<exists>other \<in> set (laneletLayer m).
        lanelet_id w other \<noteq> lanelet_id w ll \<and> geo_follows geo w other ll)"

definition has_successor :: "Geometry \<Rightarrow> World \<Rightarrow> LaneletMap \<Rightarrow> Lanelet \<Rightarrow> bool" where
  "has_successor geo w m ll =
     (\<exists>other \<in> set (laneletLayer m).
        lanelet_id w other \<noteq> lanelet_id w ll \<and> geo_follows geo w ll other)"

text \<open>
  \<^verbatim>\<open>find_wrong_lanelet(map_ptr, seg, deleted, match)\<close>, for the reference segment at
  index \<open>ind\<close> of the match: the first candidate with neither predecessor nor successor
  is pushed to \<open>deleted\<close> and its chain entry is removed from the match.
\<close>

definition find_wrong_lanelet ::
  "Geometry \<Rightarrow> World \<Rightarrow> LaneletMap \<Rightarrow> nat \<Rightarrow> Lanelet list \<Rightarrow> s_match
     \<Rightarrow> failure + (bool \<times> World \<times> Lanelet list \<times> s_match)" where
  "find_wrong_lanelet geo w m ind deleted match =
     and_then (vec_at (ref_pline match) ind) (\<lambda>seg.
     and_then (find_wrong_lanelet_candidates m (ls_attrs seg) w []) (\<lambda>(w1, candidates).
       (case find (\<lambda>ll. \<not> has_predecessor geo w1 m ll \<and> \<not> has_successor geo w1 m ll)
               candidates of
          Some ll_found \<Rightarrow>
            Inr (True, w1, deleted @ [ll_found],
                 remove_tag_ref_pline match (lanelet_id w1 ll_found))
        | None \<Rightarrow> Inr (False, w1, deleted, match))))"

text \<open>
  The colour code and \<open>lanes_osm\<close> of a segment (lines 295 to 313 of the source) from the
  counted lanes and the active values of the lanes and the shoulder tag.  An increment
  beyond the largest \<^verbatim>\<open>int\<close> is undefined.
\<close>

definition lanes_color :: "int \<Rightarrow> string \<Rightarrow> string \<Rightarrow> failure + (string \<times> int)" where
  "lanes_color lanes_count val_lane val_sh =
     (if val_lane \<noteq> [] then
        and_then (stoi val_lane) (\<lambda>n.
          (let lanes_osm = (if val_sh = ''yes'' \<or> val_sh = ''left'' \<or> val_sh = ''right''
                            then n + 1
                            else if val_sh = ''both'' then n + 2 else n)
           in if 2147483647 < lanes_osm then Inl Undefined_behaviour
              else Inr (if lanes_count = lanes_osm then ''WEBGreen'' else ''WEBRed'',
                        lanes_osm)))
      else Inr (''WEBBlueLight'', 0))"

text \<open>The message printed when no lanelet can be removed, without its colour codes.\<close>

definition skipping_message :: string where
  "skipping_message = ''~~~~~> Couldn't identify wrong lanelets clearly! - Skipping segment!''"

text \<open>
  The state of \<^verbatim>\<open>check_lanes\<close>: the world, the match, the colour entries, the deleted
  lanelets and the lines printed on \<^verbatim>\<open>std::cout\<close>.
\<close>

type_synonym lanes_state =
  "World \<times> s_match \<times> (Id \<times> string) list \<times> Lanelet list \<times> string list"

text \<open>
  The loop \<^verbatim>\<open>while (lanes_count > lanes_osm)\<close> of \<^verbatim>\<open>check_lanes\<close> for the segment at
  index \<open>ind\<close>.
\<close>

function check_lanes_remove ::
  "Geometry \<Rightarrow> LaneletMap \<Rightarrow> nat \<Rightarrow> int \<Rightarrow> int \<Rightarrow> lanes_state \<Rightarrow> failure + lanes_state" where
  "check_lanes_remove geo m ind lanes_count lanes_osm (w, match, cols, deleted, out) =
     (if lanes_osm < lanes_count then
        (case find_wrong_lanelet geo w m ind deleted match of
           Inl e \<Rightarrow> Inl e
         | Inr (found, w1, deleted1, match1) \<Rightarrow>
             if found then
               check_lanes_remove geo m ind (lanes_count - 1) lanes_osm
                 (w1, match1, cols, deleted1, out)
             else Inr (w1, match1, cols, deleted1, out @ [skipping_message]))
      else Inr (w, match, cols, deleted, out))"
  by pat_completeness auto
termination
  by (relation "measure (\<lambda>(geo, m, ind, lanes_count, lanes_osm, st).
                   nat (lanes_count - lanes_osm))")
     auto

declare check_lanes_remove.simps [simp del]

text \<open>The body of the loop of \<^verbatim>\<open>check_lanes\<close> over the reference segments.\<close>

definition check_lanes_segment ::
  "Geometry \<Rightarrow> LaneletMap \<Rightarrow> nat list \<Rightarrow> string list \<Rightarrow> string list \<Rightarrow> nat \<Rightarrow> lanes_state
     \<Rightarrow> failure + lanes_state" where
  "check_lanes_segment geo m ind_change val_lanes_new val_shoulder_new ind st =
     (case st of (w, match, cols, deleted, out) \<Rightarrow>
      and_then (vec_at (ref_pline match) ind) (\<lambda>seg.
      and_then (active_value val_lanes_new ind_change ind) (\<lambda>val_lane.
      and_then (active_value val_shoulder_new ind_change ind) (\<lambda>val_sh.
      and_then (lanes_color
                  (count_lanes_dir ''ll_id_backward_'' seg
                     (count_lanes_dir ''ll_id_forward_'' seg 0))
                  val_lane val_sh) (\<lambda>(col_code, lanes_osm).
      and_then (set_color_code_dir ''ll_id_forward_'' seg m col_code w cols) (\<lambda>(w1, cols1).
      and_then (set_color_code_dir ''ll_id_backward_'' seg m col_code w1 cols1) (\<lambda>(w2, cols2).
        if val_lane \<noteq> [] then
          check_lanes_remove geo m ind
            (count_lanes_dir ''ll_id_backward_'' seg (count_lanes_dir ''ll_id_forward_'' seg 0))
            lanes_osm (w2, match, cols2, deleted, out)
        else Inr (w2, match, cols2, deleted, out))))))))"

fun check_lanes_segs ::
  "Geometry \<Rightarrow> LaneletMap \<Rightarrow> nat list \<Rightarrow> string list \<Rightarrow> string list \<Rightarrow> nat list \<Rightarrow> lanes_state
     \<Rightarrow> failure + lanes_state" where
  "check_lanes_segs geo m ind_change val_lanes_new val_shoulder_new [] st = Inr st"
| "check_lanes_segs geo m ind_change val_lanes_new val_shoulder_new (ind # inds) st =
     and_then (check_lanes_segment geo m ind_change val_lanes_new val_shoulder_new ind st)
       (\<lambda>st1. check_lanes_segs geo m ind_change val_lanes_new val_shoulder_new inds st1)"

text \<open>
  The loop of \<^verbatim>\<open>check_lanes\<close> over the merged change points, which builds
  \<open>val_lanes_new\<close> and \<open>val_shoulder_new\<close>.
\<close>

fun merged_values ::
  "Point3d list \<Rightarrow> Point3d list \<Rightarrow> Point3d list \<Rightarrow> string list \<Rightarrow> string list \<Rightarrow> nat \<Rightarrow> nat
     \<Rightarrow> string list \<Rightarrow> string list \<Rightarrow> failure + (string list \<times> string list)" where
  "merged_values [] pts_change_lanes pts_change_shoulder val_lanes val_shoulder
     count_lanes count_shoulder val_lanes_new val_shoulder_new =
     Inr (val_lanes_new, val_shoulder_new)"
| "merged_values (pt # pts_merged) pts_change_lanes pts_change_shoulder val_lanes val_shoulder
     count_lanes count_shoulder val_lanes_new val_shoulder_new =
     (let count_lanes1 = (if pt \<in> set pts_change_lanes then count_lanes + 1 else count_lanes);
          count_shoulder1 = (if pt \<in> set pts_change_shoulder then count_shoulder + 1
                             else count_shoulder)
      in and_then (vec_at val_lanes count_lanes1) (\<lambda>vl.
         and_then (vec_at val_shoulder count_shoulder1) (\<lambda>vs.
           merged_values pts_merged pts_change_lanes pts_change_shoulder val_lanes val_shoulder
             count_lanes1 count_shoulder1 (val_lanes_new @ [vl]) (val_shoulder_new @ [vs]))))"

text \<open>
  \<^verbatim>\<open>check_lanes\<close>.  The reference segments are visited by index, since the removal of a
  lanelet rewrites the attributes of the segments of the match.
\<close>

definition check_lanes ::
  "Geometry \<Rightarrow> LaneletMap \<Rightarrow> Point3d list \<Rightarrow> Point3d list \<Rightarrow> string list \<Rightarrow> string list
     \<Rightarrow> lanes_state \<Rightarrow> failure + lanes_state" where
  "check_lanes geo m pts_change_lanes pts_change_shoulder val_lanes val_shoulder st =
     (case st of (w, match, cols, deleted, out) \<Rightarrow>
      and_then (get_indices match (merge_point_vec [pts_change_lanes, pts_change_shoulder]))
        (\<lambda>ind_change.
      and_then (same_direction match) (\<lambda>same.
      and_then (vec_at (if \<not> same then rev val_lanes else val_lanes) 0) (\<lambda>lanes_front.
      and_then (vec_at (if \<not> same then rev val_shoulder else val_shoulder) 0) (\<lambda>shoulder_front.
      and_then (merged_values (merge_point_vec [pts_change_lanes, pts_change_shoulder])
                  pts_change_lanes pts_change_shoulder
                  (if \<not> same then rev val_lanes else val_lanes)
                  (if \<not> same then rev val_shoulder else val_shoulder)
                  0 0 [lanes_front] [shoulder_front]) (\<lambda>(val_lanes_new, val_shoulder_new).
        check_lanes_segs geo m ind_change val_lanes_new val_shoulder_new
          [0..<length (ref_pline match)] st))))))"

subsection \<open>The public methods\<close>

definition target_keys :: "string list" where
  "target_keys = [''highway'', ''maxspeed'', ''name'', ''oneway'', ''surface'',
                  ''lane_markings'', ''lanes'', ''shoulder'']"

text \<open>The lines \<^verbatim>\<open>conflate_lanelet_OSM\<close> prints before it returns, without their colour codes.\<close>

definition final_messages :: "string list" where
  "final_messages =
     [''~~~~~> Set lanelet subtype and location based on OSM highway tag!'',
      ''~~~~~> Transferred maxspeed to speed_limit!'',
      ''~~~~~> Transferred name to road_name!'',
      ''~~~~~> Transferred oneway to one_way!'',
      ''~~~~~> Transferred surface to road_surface!'',
      ''~~~~~> Transferred lane_markings to lane_markings!'',
      ''~~~~~> Colorized lanelets based on amount of adjacent lanes!'']"

text \<open>
  What \<^verbatim>\<open>conflate_lanelet_OSM\<close> works on: the world, the map, the colour entries, the
  deleted lanelets and the printed lines.
\<close>

type_synonym conflation_state =
  "World \<times> LaneletMap \<times> (Id \<times> string) list \<times> Lanelet list \<times> string list"

text \<open>The body of the loop of \<^verbatim>\<open>conflate_lanelet_OSM\<close> over the matches.\<close>

definition conflate_match ::
  "Geometry \<Rightarrow> conflation_state \<Rightarrow> s_match \<Rightarrow> failure + (conflation_state \<times> s_match)" where
  "conflate_match geo st match =
     (case st of (w, m, cols, deleted, out) \<Rightarrow>
      if target_pline match \<noteq> [] then
        and_then (split_on_tag_change geo w m match target_keys [] [])
          (\<lambda>(w1, m1, match1, pts_change, vals).
        and_then (set_type_location w1 m1 match1 (pts_change ! 0) (vals ! 0)) (\<lambda>w2.
        and_then (transfer_att w2 m1 match1 ''speed_limit'' (pts_change ! 1) (vals ! 1)) (\<lambda>w3.
        and_then (transfer_att w3 m1 match1 ''road_name'' (pts_change ! 2) (vals ! 2)) (\<lambda>w4.
        and_then (transfer_att w4 m1 match1 ''one_way'' (pts_change ! 3) (vals ! 3)) (\<lambda>w5.
        and_then (transfer_att w5 m1 match1 ''road_surface'' (pts_change ! 4) (vals ! 4)) (\<lambda>w6.
        and_then (transfer_att w6 m1 match1 ''lane_markings'' (pts_change ! 5) (vals ! 5)) (\<lambda>w7.
        and_then (check_lanes geo m1 (pts_change ! 6) (pts_change ! 7) (vals ! 6) (vals ! 7)
                    (w7, match1, cols, deleted, out))
          (\<lambda>(w8, match2, cols1, deleted1, out1).
             Inr ((w8, m1, cols1, deleted1, out1), match2)))))))))
      else Inr (st, match))"

fun conflate_matches ::
  "Geometry \<Rightarrow> conflation_state \<Rightarrow> s_match list \<Rightarrow> failure + (conflation_state \<times> s_match list)" where
  "conflate_matches geo st [] = Inr (st, [])"
| "conflate_matches geo st (match # matches) =
     and_then (conflate_match geo st match) (\<lambda>(st1, match1).
     and_then (conflate_matches geo st1 matches) (\<lambda>(st2, matches1).
       Inr (st2, match1 # matches1)))"

text \<open>
  \<^verbatim>\<open>conflate_lanelet_OSM(map_ptr, matches, cols, deleted)\<close>: the returned boolean, the
  state and the matches as the call leaves them.
\<close>

definition conflate_lanelet_OSM ::
  "Geometry \<Rightarrow> conflation_state \<Rightarrow> s_match list
     \<Rightarrow> failure + (bool \<times> conflation_state \<times> s_match list)" where
  "conflate_lanelet_OSM geo st matches =
     and_then (conflate_matches geo st matches) (\<lambda>((w, m, cols, deleted, out), matches1).
       Inr (True, (w, m, cols, deleted, out @ final_messages), matches1))"






subsection \<open>Well-formed inputs\<close>

text \<open>
  Every attribute of a reference segment whose key contains \<^verbatim>\<open>forward\<close> or
  \<^verbatim>\<open>backward\<close> holds an id, as the chains written by the matching do.
\<close>

definition attrs_ok :: "AttributeMap \<Rightarrow> bool" where
  "attrs_ok attrs =
     (\<forall>(k, v) \<in> set attrs.
        contains k ''forward'' \<or> contains k ''backward'' \<longrightarrow> asId v \<noteq> None)"

definition chain_ids_ok :: "s_match \<Rightarrow> bool" where
  "chain_ids_ok match = (\<forall>seg \<in> set (ref_pline match). attrs_ok (ls_attrs seg))"


definition world_extends :: "World \<Rightarrow> World \<Rightarrow> bool" where
  "world_extends w w' =
     (\<exists>ls lls. w' = w\<lparr>ls_heap := ls_heap w @ ls, ll_heap := ll_heap w @ lls\<rparr>)"

text \<open>
  A match that needs no split and that the lane check can read: each of the eight tags
  has one value along the target route, every segment of both routes has a point, the
  chain entries hold ids, and the lanes value is empty or \<^verbatim>\<open>std::stoi\<close> reads from it an
  integer that leaves room for the shoulders.
\<close>

definition constant_tags :: "s_match \<Rightarrow> bool" where
  "constant_tags match =
     (\<forall>key \<in> set target_keys. \<forall>seg \<in> set (target_pline match).
        tag_value seg key = first_value (target_pline match) key)"






subsection \<open>Example data\<close>

text \<open>
  A road along the x axis from 0 to 2, continued from 2 to 4.  The boundary curves are
  horizontal: at address 0 the curve at y = 0 with three vertices, then the curves at
  y = 3, y = 6 and y = -3, and the continuations at y = 0 and y = 3.  Lanelet 21 lies
  between y = 0 and y = 3 and is continued by lanelet 23; lanelet 22 lies between
  y = 3 and y = 6, lanelet 24 between y = -3 and y = 0.

  For a horizontal curve and a point whose x lies between the ends of the curve,
  \<^verbatim>\<open>lanelet::geometry::project\<close> is the foot of the perpendicular on the line of the
  curve.  Of the four lanelets, only 23 follows another one, 21.
\<close>

definition ex_point :: "Id \<Rightarrow> real \<Rightarrow> real \<Rightarrow> Point3d" where
  "ex_point i a b = \<lparr>p_id = i, p_x = Fin a, p_y = Fin b, p_z = Fin 0, p_attrs = []\<rparr>"

definition ex_curve :: "nat \<Rightarrow> LineString3d" where
  "ex_curve a = \<lparr>ls_ptr = a, ls_inverted = False\<rparr>"

definition ex_lanelet :: "nat \<Rightarrow> Lanelet" where
  "ex_lanelet a = \<lparr>ll_ptr = a, ll_inverted = False\<rparr>"

definition ex_world :: World where
  "ex_world =
     \<lparr>ls_heap =
        [\<lparr>ls_id = 7, ls_attrs = [(''type'', ''line_thin'')],
          ls_points = [ex_point 1 0 0, ex_point 2 1 0, ex_point 3 2 0]\<rparr>,
         \<lparr>ls_id = 8, ls_attrs = [(''type'', ''line_thin'')],
          ls_points = [ex_point 4 0 3, ex_point 5 2 3]\<rparr>,
         \<lparr>ls_id = 9, ls_attrs = [(''type'', ''line_thin'')],
          ls_points = [ex_point 6 0 6, ex_point 7 2 6]\<rparr>,
         \<lparr>ls_id = 10, ls_attrs = [(''type'', ''line_thin'')],
          ls_points = [ex_point 8 0 (-3), ex_point 9 2 (-3)]\<rparr>,
         \<lparr>ls_id = 11, ls_attrs = [(''type'', ''line_thin'')],
          ls_points = [ex_point 3 2 0, ex_point 10 4 0]\<rparr>,
         \<lparr>ls_id = 12, ls_attrs = [(''type'', ''line_thin'')],
          ls_points = [ex_point 5 2 3, ex_point 11 4 3]\<rparr>],
      ll_heap =
        [\<lparr>ll_id = 21, ll_attrs = [(''type'', ''lanelet'')],
          ll_left = ex_curve 1, ll_right = ex_curve 0\<rparr>,
         \<lparr>ll_id = 22, ll_attrs = [(''type'', ''lanelet'')],
          ll_left = ex_curve 2, ll_right = ex_curve 1\<rparr>,
         \<lparr>ll_id = 23, ll_attrs = [(''type'', ''lanelet'')],
          ll_left = ex_curve 5, ll_right = ex_curve 4\<rparr>,
         \<lparr>ll_id = 24, ll_attrs = [(''type'', ''lanelet'')],
          ll_left = ex_curve 0, ll_right = ex_curve 3\<rparr>],
      next_id = 100\<rparr>"

definition ex_map :: LaneletMap where
  "ex_map =
     \<lparr>pointLayer = [],
      laneletLayer = [ex_lanelet 0, ex_lanelet 1, ex_lanelet 2, ex_lanelet 3],
      areaLayer = [\<lparr>pr_id = 31, pr_attrs = [(''subtype'', ''parking'')]\<rparr>],
      regulatoryElementLayer = [\<lparr>pr_id = 41, pr_attrs = [(''subtype'', ''speed_limit'')]\<rparr>],
      polygonLayer = []\<rparr>"


definition ex_project :: "Point3d list \<Rightarrow> BasicPoint3d \<Rightarrow> BasicPoint3d" where
  "ex_project ps p = (fst p, (case ps of [] \<Rightarrow> Fin 0 | q # _ \<Rightarrow> p_y q), Fin 0)"

definition ex_follows :: "World \<Rightarrow> Lanelet \<Rightarrow> Lanelet \<Rightarrow> bool" where
  "ex_follows w prev next = (lanelet_id w prev = 21 \<and> lanelet_id w next = 23)"

definition ex_geo :: Geometry where
  "ex_geo = \<lparr>geo_project = ex_project, geo_follows = ex_follows\<rparr>"

text \<open>
  A match of one reference segment along y = 3, with the given chain attributes, and one
  target segment along y = 2, with the given tags.
\<close>

definition ex_ref_seg :: "AttributeMap \<Rightarrow> LineStringData" where
  "ex_ref_seg chain =
     \<lparr>ls_id = 51, ls_attrs = chain, ls_points = [ex_point 60 0 3, ex_point 61 2 3]\<rparr>"

definition ex_target_seg :: "AttributeMap \<Rightarrow> LineStringData" where
  "ex_target_seg tags =
     \<lparr>ls_id = 71, ls_attrs = tags, ls_points = [ex_point 80 0 2, ex_point 81 2 2]\<rparr>"

definition ex_match :: "AttributeMap \<Rightarrow> AttributeMap \<Rightarrow> s_match" where
  "ex_match chain tags = \<lparr>ref_pline = [ex_ref_seg chain], target_pline = [ex_target_seg tags]\<rparr>"

text \<open>
  A match without a reference route whose target route changes its road class at the
  point (2, 2).
\<close>

definition ex_no_ref_match :: s_match where
  "ex_no_ref_match =
     \<lparr>ref_pline = [],
      target_pline =
        [\<lparr>ls_id = 71, ls_attrs = [(''highway'', ''motorway'')],
          ls_points = [ex_point 80 0 2, ex_point 81 2 2]\<rparr>,
         \<lparr>ls_id = 72, ls_attrs = [(''highway'', ''primary'')],
          ls_points = [ex_point 81 2 2, ex_point 82 4 2]\<rparr>]\<rparr>"

section \<open>Properties\<close>

subsection \<open>Rounding\<close>

lemma pow2_powr: "pow2 e = 2 powr (of_int e)"
proof (cases "0 \<le> e")
  case True
  then show ?thesis by (simp add: pow2_def powr_realpow[symmetric])
next
  case False
  then have r: "real (nat (- e)) = - real_of_int e" by simp
  have "(2::real) ^ nat (- e) = 2 powr real (nat (- e))" by (simp add: powr_realpow)
  also have "\<dots> = 2 powr (- real_of_int e)" by (simp only: r)
  finally have "1 / (2::real) ^ nat (- e) = 2 powr (of_int e)"
    by (simp add: powr_minus_divide)
  with False show ?thesis by (simp add: pow2_def)
qed

lemma pow2_add: "pow2 (a + b) = pow2 a * pow2 b"
  by (simp add: pow2_powr powr_add)

lemma pow2_pos: "0 < pow2 e"
  by (simp add: pow2_powr)

lemma pow2_mono: "a \<le> b \<Longrightarrow> pow2 a \<le> pow2 b"
  by (simp add: pow2_powr)

lemma pow2_less_iff: "pow2 a < pow2 b \<longleftrightarrow> a < b"
  by (simp add: pow2_powr)

lemma pow2_nat: "0 \<le> e \<Longrightarrow> pow2 e = of_int (2 ^ nat e)"
  by (simp add: pow2_def)

lemma round_even_of_int: "round_even (of_int z) = z"
  by (simp add: round_even_def)

lemma binade_up_le: "a < pow2 (k + 1) \<Longrightarrow> e \<le> k \<Longrightarrow> binade_up n a e \<le> k"
proof (induction n arbitrary: e)
  case 0
  then show ?case by simp
next
  case (Suc n)
  show ?case
  proof (cases "a < pow2 (e + 1)")
    case True
    with Suc.prems show ?thesis by simp
  next
    case False
    with Suc.prems(1) have "pow2 (e + 1) < pow2 (k + 1)" by simp
    then have "e + 1 \<le> k" by (simp add: pow2_less_iff)
    from Suc.IH[OF Suc.prems(1) this] False show ?thesis by simp
  qed
qed

lemma binade_down_le:
  "a < pow2 (k + 1) \<Longrightarrow> e - int n \<le> k \<Longrightarrow> binade_down n a e \<le> k"
proof (induction n arbitrary: e)
  case 0
  then show ?case by simp
next
  case (Suc n)
  show ?case
  proof (cases "pow2 e \<le> a")
    case True
    with Suc.prems(1) have "pow2 e < pow2 (k + 1)" by simp
    then have "e \<le> k" by (simp add: pow2_less_iff)
    with True show ?thesis by simp
  next
    case False
    have "binade_down n a (e - 1) \<le> k"
      by (rule Suc.IH[OF Suc.prems(1)]) (use Suc.prems(2) in simp)
    with False show ?thesis by simp
  qed
qed

lemma binade_le:
  assumes "a < pow2 (k + 1)" and "- 1022 \<le> k"
  shows "binade a \<le> k"
proof (cases "1 \<le> a")
  case True
  with assms(1) have "pow2 0 < pow2 (k + 1)" by (simp add: pow2_def)
  then have "0 \<le> k" by (simp add: pow2_less_iff)
  from binade_up_le[OF assms(1) this] True show ?thesis by (simp add: binade_def)
next
  case False
  have "binade_down 1022 a 0 \<le> k"
    by (rule binade_down_le[OF assms(1)]) (use assms(2) in simp)
  with False show ?thesis by (simp add: binade_def)
qed

text \<open>A real with a significand of 53 bits and an exponent in range is a double.\<close>

lemma round_double_exact:
  assumes m: "\<bar>m\<bar> < 2 ^ 53" and k: "- 1074 \<le> k" "k \<le> 971"
  shows "round_double (of_int m * pow2 k) = Fin (of_int m * pow2 k)"
proof -
  define x where "x = real_of_int m * pow2 k"
  define b where "b = binade \<bar>x\<bar>"
  have ax: "\<bar>x\<bar> = of_int \<bar>m\<bar> * pow2 k"
    using pow2_pos[of k] by (simp add: x_def abs_mult)
  from m have "real_of_int \<bar>m\<bar> < real_of_int (2 ^ 53)" by (simp only: of_int_less_iff)
  then have "real_of_int \<bar>m\<bar> < 2 ^ 53" by simp
  then have "\<bar>x\<bar> < 2 ^ 53 * pow2 k"
    unfolding ax using pow2_pos[of k] by (simp add: mult_strict_right_mono)
  also have "\<dots> = pow2 (k + 52 + 1)"
  proof -
    have "pow2 (k + 52 + 1) = pow2 53 * pow2 k"
      using pow2_add[of 53 k] by (simp add: add.commute)
    moreover have "pow2 53 = 2 ^ 53" by (simp add: pow2_def)
    ultimately show ?thesis by simp
  qed
  finally have "\<bar>x\<bar> < pow2 (k + 52 + 1)" .
  then have "b \<le> k + 52" unfolding b_def by (rule binade_le) (use k in simp)
  then have j: "0 \<le> k - (b - 52)" by simp
  have pj: "pow2 (k - (b - 52)) = 2 ^ nat (k - (b - 52))"
    using j by (simp only: pow2_def if_True)
  have pk: "pow2 k = pow2 (k - (b - 52)) * pow2 (b - 52)"
    by (simp add: pow2_add[symmetric])
  have qpos: "pow2 (b - 52) \<noteq> 0" using pow2_pos[of "b - 52"] by simp
  have "x / pow2 (b - 52) = of_int m * pow2 (k - (b - 52))"
    unfolding x_def pk using qpos by simp
  also have "\<dots> = of_int (m * 2 ^ nat (k - (b - 52)))"
    unfolding pj by simp
  finally have d: "x / pow2 (b - 52) = of_int (m * 2 ^ nat (k - (b - 52)))" .
  have "of_int (round_even (x / pow2 (b - 52))) * pow2 (b - 52)
          = of_int (m * 2 ^ nat (k - (b - 52))) * pow2 (b - 52)"
    unfolding d round_even_of_int by (rule refl)
  also have "\<dots> = x / pow2 (b - 52) * pow2 (b - 52)" unfolding d by (rule refl)
  also have "\<dots> = x" using qpos by simp
  finally have y: "of_int (round_even (x / pow2 (b - 52))) * pow2 (b - 52) = x" .
  from m have "\<bar>m\<bar> \<le> 2 ^ 53 - 1" by simp
  then have "real_of_int \<bar>m\<bar> \<le> real_of_int (2 ^ 53 - 1)" by (simp only: of_int_le_iff)
  then have mm: "real_of_int \<bar>m\<bar> \<le> 2 ^ 53 - 1" by simp
  have kk: "pow2 k \<le> pow2 971" by (rule pow2_mono[OF k(2)])
  have "real_of_int \<bar>m\<bar> * pow2 k \<le> (2 ^ 53 - 1) * pow2 971"
    by (rule mult_mono[OF mm kk]) (simp_all add: less_imp_le[OF pow2_pos])
  then have "\<not> max_double < \<bar>x\<bar>" unfolding ax max_double_def by (simp only: not_less)
  then show ?thesis
    unfolding round_double_def Let_def b_def[symmetric] x_def[symmetric] y by simp
qed

lemma round_double_int: "\<bar>n\<bar> < 2 ^ 53 \<Longrightarrow> round_double (of_int n) = Fin (of_int n)"
  using round_double_exact[of n 0] by (simp add: pow2_def)

lemma round_double_half:
  "\<bar>n\<bar> < 2 ^ 53 \<Longrightarrow> round_double (of_int n / 2) = Fin (of_int n / 2)"
  using round_double_exact[of n "- 1"] by (simp add: pow2_def)

lemma round_double_zero: "round_double 0 = Fin 0"
  using round_double_int[of 0] by simp

lemma round_double_one: "round_double 1 = Fin 1"
  using round_double_int[of 1] by simp

lemma round_double_neg_one: "round_double (- 1) = Fin (- 1)"
  using round_double_int[of "- 1"] by simp

lemma round_double_numeral:
  "(numeral w :: int) < 2 ^ 53 \<Longrightarrow> round_double (numeral w) = Fin (numeral w)"
  using round_double_int[of "numeral w"] by simp

lemma round_double_neg_numeral:
  "(numeral w :: int) < 2 ^ 53 \<Longrightarrow> round_double (- numeral w) = Fin (- numeral w)"
  using round_double_int[of "- numeral w"] by simp

lemma round_double_one_half: "round_double (1 / 2) = Fin (1 / 2)"
  using round_double_half[of 1] by simp

lemma round_double_neg_one_half: "round_double (- (1 / 2)) = Fin (- (1 / 2))"
  using round_double_half[of "- 1"] by simp

lemma round_double_numeral_half:
  "(numeral w :: int) < 2 ^ 53 \<Longrightarrow> round_double (numeral w / 2) = Fin (numeral w / 2)"
  using round_double_half[of "numeral w"] by simp

lemma round_double_neg_numeral_half:
  "(numeral w :: int) < 2 ^ 53 \<Longrightarrow>
   round_double (- (numeral w / 2)) = Fin (- (numeral w / 2))"
  using round_double_half[of "- numeral w"] by simp

lemmas round_eval = round_double_zero round_double_one round_double_neg_one
  round_double_numeral round_double_neg_numeral round_double_one_half
  round_double_neg_one_half round_double_numeral_half round_double_neg_numeral_half

lemma binade_up_ge: "pow2 k \<le> a \<Longrightarrow> k \<le> e + int n \<Longrightarrow> k \<le> binade_up n a e"
proof (induction n arbitrary: e)
  case 0
  then show ?case by simp
next
  case (Suc n)
  show ?case
  proof (cases "a < pow2 (e + 1)")
    case True
    with Suc.prems(1) have "pow2 k < pow2 (e + 1)" by simp
    then have "k \<le> e" by (simp add: pow2_less_iff)
    with True show ?thesis by simp
  next
    case False
    have "k \<le> binade_up n a (e + 1)"
      by (rule Suc.IH[OF Suc.prems(1)]) (use Suc.prems(2) in simp)
    with False show ?thesis by simp
  qed
qed

lemma binade_down_ge: "pow2 k \<le> a \<Longrightarrow> k \<le> e \<Longrightarrow> k \<le> binade_down n a e"
proof (induction n arbitrary: e)
  case 0
  then show ?case by simp
next
  case (Suc n)
  show ?case
  proof (cases "pow2 e \<le> a")
    case True
    with Suc.prems(2) show ?thesis by simp
  next
    case False
    with Suc.prems(1) have "pow2 k < pow2 e" by simp
    then have "k \<le> e - 1" by (simp add: pow2_less_iff)
    from Suc.IH[OF Suc.prems(1) this] False show ?thesis by simp
  qed
qed

lemma binade_ge:
  assumes "pow2 k \<le> a" and "k \<le> 1023"
  shows "k \<le> binade a"
proof (cases "1 \<le> a")
  case True
  have "k \<le> binade_up 1023 a 0"
    by (rule binade_up_ge[OF assms(1)]) (use assms(2) in simp)
  with True show ?thesis by (simp add: binade_def)
next
  case False
  with assms(1) have "pow2 k < pow2 0" by (simp add: pow2_def)
  then have "k \<le> 0" by (simp add: pow2_less_iff)
  from binade_down_ge[OF assms(1) this] False show ?thesis by (simp add: binade_def)
qed

lemma binade_eq:
  "pow2 e \<le> a \<Longrightarrow> a < pow2 (e + 1) \<Longrightarrow> - 1022 \<le> e \<Longrightarrow> e \<le> 1023 \<Longrightarrow> binade a = e"
  using binade_le[of a e] binade_ge[of e a] by simp

lemma round_even_between: "\<lfloor>y\<rfloor> \<le> round_even y \<and> round_even y \<le> \<lceil>y\<rceil>"
proof (cases "y - of_int \<lfloor>y\<rfloor> < 1 / 2")
  case True
  then have "round_even y = \<lfloor>y\<rfloor>" by (simp add: round_even_def Let_def)
  then show ?thesis by (simp add: floor_le_ceiling)
next
  case False
  then have "of_int \<lfloor>y\<rfloor> < y" by simp
  then have c: "\<lfloor>y\<rfloor> + 1 \<le> \<lceil>y\<rceil>" by (simp add: less_ceiling_iff[symmetric])
  have "round_even y = \<lfloor>y\<rfloor> \<or> round_even y = \<lfloor>y\<rfloor> + 1"
    by (simp add: round_even_def Let_def)
  with c show ?thesis by auto
qed

lemma round_even_bound:
  assumes "\<bar>y\<bar> < of_int N"
  shows "\<bar>real_of_int (round_even y)\<bar> \<le> of_int N"
proof -
  from assms have "- of_int N \<le> y" "y \<le> of_int N" by simp_all
  then have "- N \<le> \<lfloor>y\<rfloor>" "\<lceil>y\<rceil> \<le> N"
    by (simp_all add: le_floor_iff ceiling_le_iff)
  with round_even_between[of y] have "\<bar>round_even y\<bar> \<le> N" by linarith
  then have "real_of_int \<bar>round_even y\<bar> \<le> real_of_int N" by (simp only: of_int_le_iff)
  then show ?thesis by simp
qed

text \<open>The double next to a real of a known binade.\<close>

lemma round_double_binade:
  assumes "pow2 e \<le> \<bar>x\<bar>" "\<bar>x\<bar> < pow2 (e + 1)" "- 1022 \<le> e" "e < 1023"
  shows "round_double x = Fin (of_int (round_even (x / pow2 (e - 52))) * pow2 (e - 52))"
proof -
  have b: "binade \<bar>x\<bar> = e" by (rule binade_eq) (use assms in simp_all)
  define n where "n = round_even (x / pow2 (e - 52))"
  have q: "0 < pow2 (e - 52)" by (rule pow2_pos)
  have "\<bar>x / pow2 (e - 52)\<bar> < pow2 (e + 1) / pow2 (e - 52)"
    using assms(2) q by (simp add: divide_strict_right_mono)
  also have "pow2 (e + 1) / pow2 (e - 52) = pow2 53"
  proof -
    have "pow2 (e + 1) = pow2 53 * pow2 (e - 52)"
      using pow2_add[of 53 "e - 52"] by (simp add: add.commute)
    then show ?thesis using q by simp
  qed
  finally have "\<bar>x / pow2 (e - 52)\<bar> < 2 ^ 53" by (simp add: pow2_def)
  then have "\<bar>x / pow2 (e - 52)\<bar> < real_of_int (2 ^ 53)" by simp
  then have "\<bar>real_of_int n\<bar> \<le> real_of_int (2 ^ 53)"
    unfolding n_def by (rule round_even_bound)
  then have "\<bar>real_of_int n\<bar> \<le> 2 ^ 53" by simp
  then have "\<bar>real_of_int n * pow2 (e - 52)\<bar> \<le> 2 ^ 53 * pow2 (e - 52)"
    using q by (simp add: abs_mult)
  also have "\<dots> = pow2 (e + 1)"
  proof -
    have "pow2 (e + 1) = pow2 53 * pow2 (e - 52)"
      using pow2_add[of 53 "e - 52"] by (simp add: add.commute)
    moreover have "pow2 53 = 2 ^ 53" by (simp add: pow2_def)
    ultimately show ?thesis by simp
  qed
  also have "\<dots> \<le> pow2 1023" by (rule pow2_mono) (use assms(4) in simp)
  also have "\<dots> \<le> max_double"
  proof -
    have "pow2 1023 = 2 ^ 52 * pow2 971" using pow2_add[of 52 971] by (simp add: pow2_def)
    also have "\<dots> \<le> (2 ^ 53 - 1) * pow2 971"
      by (rule mult_right_mono) (simp_all add: less_imp_le[OF pow2_pos])
    finally show ?thesis by (simp only: max_double_def)
  qed
  finally have "\<not> max_double < \<bar>real_of_int n * pow2 (e - 52)\<bar>" by simp
  then show ?thesis
    unfolding round_double_def Let_def b n_def[symmetric] by simp
qed

lemma round_double_third: "round_double (1 / 3) = Fin (6004799503160661 / 2 ^ 54)"
  using round_double_binade[of "- 2" "1 / 3"]
  by (simp add: pow2_def round_even_def Let_def)

lemma snap_tolerance_value: "snap_tolerance = Fin (1152921504606847 / 2 ^ 60)"
  unfolding snap_tolerance_def
  using round_double_binade[of "- 10" "1 / 1000"]
  by (simp add: pow2_def round_even_def Let_def)

subsection \<open>The attribute-change detector\<close>

lemma check_tag_change_walk_total:
  "\<forall>s\<in>set segs. ls_points s \<noteq> [] \<Longrightarrow>
   \<exists>P V. check_tag_change_walk key val pts vs segs = Inr (pts @ P, vs @ V) \<and> length P = length V"
proof (induction segs arbitrary: val pts vs)
  case Nil
  then show ?case by simp
next
  case (Cons s segs)
  from Cons.prems obtain p where p: "ls_front s = Inr p"
    by (cases "ls_points s") (auto simp: ls_front_def)
  have rest: "\<forall>s\<in>set segs. ls_points s \<noteq> []" using Cons.prems by simp
  show ?case
  proof (cases "map_of (ls_attrs s) key")
    case None
    show ?thesis
    proof (cases "val = []")
      case True
      with None Cons.IH[OF rest, of val pts vs] show ?thesis by simp
    next
      case False
      from Cons.IH[OF rest, of "[]" "pts @ [p]" "vs @ [[]]"]
      obtain P V where "check_tag_change_walk key [] (pts @ [p]) (vs @ [[]]) segs
          = Inr ((pts @ [p]) @ P, (vs @ [[]]) @ V)" "length P = length V" by blast
      with None False p show ?thesis
        by (intro exI[of _ "p # P"] exI[of _ "[] # V"]) simp
    qed
  next
    case (Some v)
    show ?thesis
    proof (cases "v = val")
      case True
      with Some Cons.IH[OF rest, of val pts vs] show ?thesis by simp
    next
      case False
      from Cons.IH[OF rest, of v "pts @ [p]" "vs @ [v]"]
      obtain P V where "check_tag_change_walk key v (pts @ [p]) (vs @ [v]) segs
          = Inr ((pts @ [p]) @ P, (vs @ [v]) @ V)" "length P = length V" by blast
      with Some False p show ?thesis
        by (intro exI[of _ "p # P"] exI[of _ "v # V"]) simp
    qed
  qed
qed

lemma check_tag_change_walk_constant:
  "\<forall>s\<in>set segs. tag_value s key = val \<Longrightarrow>
   check_tag_change_walk key val pts vs segs = Inr (pts, vs)"
  by (induction segs arbitrary: pts vs) (auto simp: tag_value_def split: option.splits)

lemma first_value_tl:
  "\<forall>s\<in>set pline. tag_value s key = first_value pline key \<Longrightarrow>
   \<forall>s\<in>set (tl pline). tag_value s key = first_value pline key"
  by (cases pline) auto

text \<open>
  C4.  For a target route whose segments all have a point and for every list of keys,
  \<open>check_tag_change\<close> returns, and it appends one list of change points \<open>P ! k\<close> and one
  list of values \<open>V ! k\<close> per key; the value list is one longer than the list of change
  points.  When the value of the key (absence read as the empty string) is the same on
  every segment, the list of change points is empty and the value list holds exactly
  the seed value: the first segment's value, or the empty string if the key is absent
  there or the route is empty.
\<close>

theorem check_tag_change_lengths:
  assumes "\<forall>s\<in>set pline. ls_points s \<noteq> []"
  shows "\<exists>P V. check_tag_change pline keys pts vals = Inr (pts @ P, vals @ V) \<and>
           length P = length keys \<and> length V = length keys \<and>
           (\<forall>k<length keys.
              length (V ! k) = length (P ! k) + 1 \<and>
              ((\<forall>s\<in>set pline. tag_value s (keys ! k) = first_value pline (keys ! k)) \<longrightarrow>
                 P ! k = [] \<and> V ! k = [first_value pline (keys ! k)]))"
proof (induction keys arbitrary: pts vals)
  case Nil
  show ?case by simp
next
  case (Cons key keys)
  have tl_ok: "\<forall>s\<in>set (tl pline). ls_points s \<noteq> []"
    using assms by (cases pline) auto
  from check_tag_change_walk_total[OF tl_ok, of key "first_value pline key" "[]"
      "[first_value pline key]"]
  obtain P0 V0 where
    w: "check_tag_change_walk key (first_value pline key) [] [first_value pline key] (tl pline)
          = Inr (P0, first_value pline key # V0)"
    and len0: "length P0 = length V0"
    by auto
  have const:
    "(\<forall>s\<in>set pline. tag_value s key = first_value pline key) \<longrightarrow> P0 = [] \<and> V0 = []"
    using w check_tag_change_walk_constant[OF first_value_tl, of pline key "[]"
        "[first_value pline key]"]
    by auto
  from Cons.IH[of "pts @ [P0]" "vals @ [first_value pline key # V0]"]
  obtain P V where
    r: "check_tag_change pline keys (pts @ [P0]) (vals @ [first_value pline key # V0])
          = Inr ((pts @ [P0]) @ P, (vals @ [first_value pline key # V0]) @ V)"
    and lens: "length P = length keys" "length V = length keys"
    and each: "\<forall>k<length keys.
              length (V ! k) = length (P ! k) + 1 \<and>
              ((\<forall>s\<in>set pline. tag_value s (keys ! k) = first_value pline (keys ! k)) \<longrightarrow>
                 P ! k = [] \<and> V ! k = [first_value pline (keys ! k)])"
    by blast
  show ?case
  proof (intro exI[of _ "P0 # P"] exI[of _ "(first_value pline key # V0) # V"] conjI allI impI)
    show "check_tag_change pline (key # keys) pts vals
           = Inr (pts @ P0 # P, vals @ (first_value pline key # V0) # V)"
      using w r by simp
    show "length (P0 # P) = length (key # keys)" using lens by simp
    show "length ((first_value pline key # V0) # V) = length (key # keys)" using lens by simp
  next
    fix k assume k: "k < length (key # keys)"
    show "length (((first_value pline key # V0) # V) ! k) = length ((P0 # P) ! k) + 1"
      using k each len0 by (cases k) auto
    assume c: "\<forall>s\<in>set pline.
                 tag_value s ((key # keys) ! k) = first_value pline ((key # keys) ! k)"
    show "(P0 # P) ! k = []" using k each const c by (cases k) auto
    show "((first_value pline key # V0) # V) ! k = [first_value pline ((key # keys) ! k)]"
      using k each const c by (cases k) auto
  qed
qed

text \<open>
  A route of three segments: the road class changes at the second segment and stays, the
  speed limit is the same throughout and the lane count is absent throughout.
\<close>

theorem check_tag_change_lengths_witness:
  "check_tag_change
     [\<lparr>ls_id = 1, ls_attrs = [(''highway'', ''motorway''), (''maxspeed'', ''80'')],
       ls_points = [\<lparr>p_id = 11, p_x = Fin 0, p_y = Fin 0, p_z = Fin 0, p_attrs = []\<rparr>]\<rparr>,
      \<lparr>ls_id = 2, ls_attrs = [(''highway'', ''primary''), (''maxspeed'', ''80'')],
       ls_points = [\<lparr>p_id = 12, p_x = Fin 1, p_y = Fin 0, p_z = Fin 0, p_attrs = []\<rparr>]\<rparr>,
      \<lparr>ls_id = 3, ls_attrs = [(''highway'', ''primary''), (''maxspeed'', ''80'')],
       ls_points = [\<lparr>p_id = 13, p_x = Fin 2, p_y = Fin 0, p_z = Fin 0, p_attrs = []\<rparr>]\<rparr>]
     [''highway'', ''maxspeed'', ''lanes''] [] []
   = Inr ([[\<lparr>p_id = 12, p_x = Fin 1, p_y = Fin 0, p_z = Fin 0, p_attrs = []\<rparr>], [], []],
          [[''motorway'', ''primary''], [''80''], [[]]])"
  using check_tag_change_lengths[of
     "[\<lparr>ls_id = 1, ls_attrs = [(''highway'', ''motorway''), (''maxspeed'', ''80'')],
       ls_points = [\<lparr>p_id = 11, p_x = Fin 0, p_y = Fin 0, p_z = Fin 0, p_attrs = []\<rparr>]\<rparr>,
      \<lparr>ls_id = 2, ls_attrs = [(''highway'', ''primary''), (''maxspeed'', ''80'')],
       ls_points = [\<lparr>p_id = 12, p_x = Fin 1, p_y = Fin 0, p_z = Fin 0, p_attrs = []\<rparr>]\<rparr>,
      \<lparr>ls_id = 3, ls_attrs = [(''highway'', ''primary''), (''maxspeed'', ''80'')],
       ls_points = [\<lparr>p_id = 13, p_x = Fin 2, p_y = Fin 0, p_z = Fin 0, p_attrs = []\<rparr>]\<rparr>]"
     "[''highway'', ''maxspeed'', ''lanes'']" "[]" "[]"]
  by (simp add: first_value_def tag_value_def ls_front_def)

subsection \<open>The segment locator\<close>

lemma min_element_from_less:
  "k < i \<Longrightarrow> min_element_from s k i xs < i + length xs"
proof (induction xs arbitrary: s k i)
  case Nil
  then show ?case by simp
next
  case (Cons x xs)
  have "min_element_from x i (Suc i) xs < Suc i + length xs"
    by (rule Cons.IH) simp
  moreover have "min_element_from s k (Suc i) xs < Suc i + length xs"
    by (rule Cons.IH) (use Cons.prems in simp)
  ultimately show ?case by simp
qed

lemma min_element_less: "v \<noteq> [] \<Longrightarrow> min_element v < length v"
  using min_element_from_less[of 0 1] by (cases v) (auto simp: min_element_def)

lemma length_segment_diffs: "length (segment_diffs pt ls) = length ls - 1"
  by (induction pt ls rule: segment_diffs.induct) (auto simp: Let_def)

lemma segment_diffs_nth:
  "Suc k < length ls \<Longrightarrow>
   segment_diffs pt ls ! k =
     (let m = ddiv (dsub (p_y (ls ! Suc k)) (p_y (ls ! k)))
                (dsub (p_x (ls ! Suc k)) (p_x (ls ! k)));
          t = dsub (p_y (ls ! k)) (dmul m (p_x (ls ! k)))
      in dabs (dsub (p_y pt) (dadd (dmul m (p_x pt)) t)))"
proof (induction pt ls arbitrary: k rule: segment_diffs.induct)
  case (1 pt a b rest)
  then show ?case by (cases k) (auto simp: Let_def)
qed auto

lemma is_Fin_dneg: "is_Fin (dneg a) = is_Fin a"
  by (cases a) simp_all

lemma is_Fin_dabs: "is_Fin (dabs a) = is_Fin a"
  by (cases a) simp_all

lemma dadd_not_finite: "\<not> is_Fin a \<or> \<not> is_Fin b \<Longrightarrow> \<not> is_Fin (dadd a b)"
  by (cases a; cases b) simp_all

lemma dsub_not_finite: "\<not> is_Fin a \<or> \<not> is_Fin b \<Longrightarrow> \<not> is_Fin (dsub a b)"
  unfolding dsub_def by (rule dadd_not_finite) (simp add: is_Fin_dneg)

lemma dmul_not_finite: "\<not> is_Fin a \<Longrightarrow> \<not> is_Fin (dmul a b)"
  by (cases a; cases b) (simp_all add: inf_times_def)

lemma dsub_self: "dsub a a = Fin 0 \<or> dsub a a = NaN"
  by (cases a) (simp_all add: dsub_def round_double_zero)

lemma ddiv_not_finite: "b = Fin 0 \<or> b = NaN \<Longrightarrow> \<not> is_Fin (ddiv a b)"
  by (cases a) (auto split: if_splits)

text \<open>The offset computed for a segment whose two vertices have the same x-coordinate.\<close>

lemma segment_diff_vertical:
  "\<not> is_Fin (dabs (dsub py (dadd (dmul (ddiv (dsub yb ya) (dsub xa xa)) px)
                              (dsub ya (dmul (ddiv (dsub yb ya) (dsub xa xa)) xa)))))"
proof -
  have "\<not> is_Fin (ddiv (dsub yb ya) (dsub xa xa))"
    by (rule ddiv_not_finite) (rule dsub_self)
  then have "\<not> is_Fin (dmul (ddiv (dsub yb ya) (dsub xa xa)) px)"
    by (rule dmul_not_finite)
  then have "\<not> is_Fin (dadd (dmul (ddiv (dsub yb ya) (dsub xa xa)) px)
                           (dsub ya (dmul (ddiv (dsub yb ya) (dsub xa xa)) xa)))"
    by (intro dadd_not_finite disjI1)
  then have "\<not> is_Fin (dsub py (dadd (dmul (ddiv (dsub yb ya) (dsub xa xa)) px)
                              (dsub ya (dmul (ddiv (dsub yb ya) (dsub xa xa)) xa))))"
    by (intro dsub_not_finite disjI2)
  then show ?thesis unfolding is_Fin_dabs .
qed

text \<open>
  C10.  On a linestring with at least 2 points \<open>find_segment_2D\<close> returns an index
  between 0 and the number of points minus 2.  The slope of a segment is a quotient by
  the difference of the x-coordinates of its two vertices, taken without a guard: for a
  segment whose two vertices have the same x-coordinate the offset that is computed is
  an infinity or not a number, whatever the other coordinates are.
\<close>

theorem find_segment_2D_range:
  assumes "2 \<le> length ls"
  shows "(\<exists>i. find_segment_2D pt ls = Inr i \<and> i \<le> length ls - 2) \<and>
         (\<forall>k. Suc k < length ls \<and> p_x (ls ! k) = p_x (ls ! Suc k) \<longrightarrow>
              \<not> is_Fin (segment_diffs pt ls ! k))"
proof (intro conjI allI impI)
  have ne: "segment_diffs pt ls \<noteq> []"
    using assms length_segment_diffs[of pt ls] by (cases "segment_diffs pt ls") auto
  from min_element_less[OF ne] have "min_element (segment_diffs pt ls) < length ls - 1"
    by (simp add: length_segment_diffs)
  moreover have "ls \<noteq> []" using assms by auto
  ultimately show "\<exists>i. find_segment_2D pt ls = Inr i \<and> i \<le> length ls - 2"
    by (auto simp: find_segment_2D_def)
next
  fix k
  assume a: "Suc k < length ls \<and> p_x (ls ! k) = p_x (ls ! Suc k)"
  then have k: "Suc k < length ls" and x: "p_x (ls ! Suc k) = p_x (ls ! k)" by simp_all
  show "\<not> is_Fin (segment_diffs pt ls ! k)"
    unfolding segment_diffs_nth[OF k] Let_def x by (rule segment_diff_vertical)
qed

text \<open>
  A linestring that rises, turns and runs up vertically, and a point on its second
  segment: the second segment is found, and the offset for the vertical third segment
  is not a finite number.
\<close>

theorem find_segment_2D_range_witness:
  "find_segment_2D \<lparr>p_id = 9, p_x = Fin (3/2), p_y = Fin (1/2), p_z = Fin 0, p_attrs = []\<rparr>
     [\<lparr>p_id = 1, p_x = Fin 0, p_y = Fin 0, p_z = Fin 0, p_attrs = []\<rparr>,
      \<lparr>p_id = 2, p_x = Fin 1, p_y = Fin 1, p_z = Fin 0, p_attrs = []\<rparr>,
      \<lparr>p_id = 3, p_x = Fin 2, p_y = Fin 0, p_z = Fin 0, p_attrs = []\<rparr>,
      \<lparr>p_id = 4, p_x = Fin 2, p_y = Fin 5, p_z = Fin 0, p_attrs = []\<rparr>] = Inr 1 \<and>
   \<not> is_Fin (segment_diffs \<lparr>p_id = 9, p_x = Fin (3/2), p_y = Fin (1/2), p_z = Fin 0, p_attrs = []\<rparr>
     [\<lparr>p_id = 1, p_x = Fin 0, p_y = Fin 0, p_z = Fin 0, p_attrs = []\<rparr>,
      \<lparr>p_id = 2, p_x = Fin 1, p_y = Fin 1, p_z = Fin 0, p_attrs = []\<rparr>,
      \<lparr>p_id = 3, p_x = Fin 2, p_y = Fin 0, p_z = Fin 0, p_attrs = []\<rparr>,
      \<lparr>p_id = 4, p_x = Fin 2, p_y = Fin 5, p_z = Fin 0, p_attrs = []\<rparr>] ! 2)"
  using find_segment_2D_range[of
     "[\<lparr>p_id = 1, p_x = Fin 0, p_y = Fin 0, p_z = Fin 0, p_attrs = []\<rparr>,
      \<lparr>p_id = 2, p_x = Fin 1, p_y = Fin 1, p_z = Fin 0, p_attrs = []\<rparr>,
      \<lparr>p_id = 3, p_x = Fin 2, p_y = Fin 0, p_z = Fin 0, p_attrs = []\<rparr>,
      \<lparr>p_id = 4, p_x = Fin 2, p_y = Fin 5, p_z = Fin 0, p_attrs = []\<rparr>]"
     "\<lparr>p_id = 9, p_x = Fin (3/2), p_y = Fin (1/2), p_z = Fin 0, p_attrs = []\<rparr>"]
  by (simp add: find_segment_2D_def min_element_def dsub_def inf_times_def round_eval)

text \<open>
  Rounding decides between two segments that are equally far in exact arithmetic: the
  point (7, 1) is offset by 1 from the line through (0, 0) and (1, 0) and from the line
  through (1, 0) and (4, 1), whose slope is the double next to a third.
\<close>

lemma find_segment_2D_rounded:
  "find_segment_2D \<lparr>p_id = 9, p_x = Fin 7, p_y = Fin 1, p_z = Fin 0, p_attrs = []\<rparr>
     [\<lparr>p_id = 1, p_x = Fin 0, p_y = Fin 0, p_z = Fin 0, p_attrs = []\<rparr>,
      \<lparr>p_id = 2, p_x = Fin 1, p_y = Fin 0, p_z = Fin 0, p_attrs = []\<rparr>,
      \<lparr>p_id = 3, p_x = Fin 4, p_y = Fin 1, p_z = Fin 0, p_attrs = []\<rparr>] = Inr 1"
proof -
  have m: "round_double (1 / 3) = Fin (6004799503160661 / 18014398509481984)"
    using round_double_third by simp
  have m1: "round_double (6004799503160661 / 18014398509481984)
              = Fin (6004799503160661 / 18014398509481984)"
    using round_double_exact[of 6004799503160661 "- 54"] by (simp add: pow2_def)
  have t: "round_double (- (6004799503160661 / 18014398509481984))
              = Fin (- (6004799503160661 / 18014398509481984))"
    using round_double_exact[of "- 6004799503160661" "- 54"] by (simp add: pow2_def)
  have m7: "round_double (42033596522124627 / 18014398509481984)
              = Fin (2627099782632789 / 1125899906842624)"
    using round_double_binade[of 1 "42033596522124627 / 18014398509481984"]
    by (simp add: pow2_def round_even_def Let_def)
  have s: "round_double (36028797018963963 / 18014398509481984)
              = Fin (9007199254740991 / 4503599627370496)"
    using round_double_binade[of 0 "36028797018963963 / 18014398509481984"]
    by (simp add: pow2_def round_even_def Let_def)
  have d: "round_double (- (4503599627370495 / 4503599627370496))
              = Fin (- (4503599627370495 / 4503599627370496))"
    using round_double_exact[of "- 4503599627370495" "- 52"] by (simp add: pow2_def)
  show ?thesis
    by (simp add: find_segment_2D_def min_element_def dsub_def round_eval m m1 t m7 s d)
qed

subsection \<open>The curve splitter\<close>

lemma ls_data_invert [simp]: "ls_data w (invert ls) = ls_data w ls"
  by (simp add: ls_data_def invert_def)

lemma invert_invert [simp]: "invert (invert ls) = ls"
  by (simp add: invert_def)

lemma ls_ptr_invert [simp]: "ls_ptr (invert ls) = ls_ptr ls"
  by (simp add: invert_def)

lemma used_Id_ls_invert [simp]: "used_Id_ls w ids (invert ls) = used_Id_ls w ids ls"
  by (simp add: used_Id_ls_def)

lemma points_of_invert: "points_of w (invert ls) = rev (points_of w ls)"
  by (simp add: points_of_def invert_def ls_data_def)

lemma find_index_of_less: "x \<in> set xs \<Longrightarrow> find_index_of x xs < length xs"
  by (induction xs) auto

lemma find_index_of_append: "x \<notin> set xs \<Longrightarrow> find_index_of x (xs @ [x]) = length xs"
  by (induction xs) auto

lemma find_index_of_append_in:
  "x \<in> set xs \<Longrightarrow> find_index_of x (xs @ ys) = find_index_of x xs"
  by (induction xs) auto

lemma split_linestring_hit:
  assumes "ls_id (ls_data w orig_ls) \<in> set splitted" "length new_lss = length splitted"
  shows "split_linestring project w orig_ls splitted new_lss pt inverted =
     Inr (w, orig_ls,
          (if inverted then invert (new_lss ! find_index_of (ls_id (ls_data w orig_ls)) splitted)
           else new_lss ! find_index_of (ls_id (ls_data w orig_ls)) splitted),
          splitted, new_lss)"
  using assms find_index_of_less[OF assms(1)]
  by (simp add: split_linestring_def used_Id_ls_def Let_def)

lemma split_linestring_miss:
  assumes miss: "ls_id (ls_data w orig_ls) \<notin> set splitted"
      and valid: "ls_ptr orig_ls < length (ls_heap w)"
      and sv: "split_vertex (points_of w (if inverted then invert orig_ls else orig_ls))
                 (project (points_of w (if inverted then invert orig_ls else orig_ls)) (basicPoint pt))
                 (next_id w) = Inr (new_pt, ind)"
  shows "\<exists>w'. split_linestring project w orig_ls splitted new_lss pt inverted =
     Inr (w', orig_ls,
          (if inverted then invert (next_linestring w) else next_linestring w),
          splitted @ [ls_id (ls_data w orig_ls)], new_lss @ [next_linestring w]) \<and>
     points_of w' (if inverted then invert orig_ls else orig_ls) =
       take (ind + 1) (points_of w (if inverted then invert orig_ls else orig_ls)) @ [new_pt] \<and>
     points_of w' (next_linestring w) =
       new_pt # drop (ind + 1) (points_of w (if inverted then invert orig_ls else orig_ls)) \<and>
     ls_id (ls_data w' orig_ls) = ls_id (ls_data w orig_ls) \<and>
     length (ls_heap w') = Suc (length (ls_heap w))"
  using miss valid sv
  by (cases inverted)
     (auto simp: split_linestring_def used_Id_ls_def Let_def getId_def new_linestring_def
        set_points_def points_of_def ls_data_def next_linestring_def nth_append invert_def)

lemma segment_index_le:
  assumes "2 \<le> length ls"
  shows "min_element (segment_diffs pt ls) + 2 \<le> length ls"
proof -
  have ne: "segment_diffs pt ls \<noteq> []"
    using assms length_segment_diffs[of pt ls] by (cases "segment_diffs pt ls") auto
  from min_element_less[OF ne] show ?thesis
    by (simp add: length_segment_diffs)
qed

lemma split_vertex_total:
  assumes two: "2 \<le> length ps"
  shows "\<exists>new_pt ind. split_vertex ps pp fresh = Inr (new_pt, ind) \<and>
           (ind + 2 \<le> length ps \<or>
            (dless (vertex_distances ps pp ! min_element (vertex_distances ps pp)) snap_tolerance \<and>
             min_element (vertex_distances ps pp) = length ps - 1 \<and> ind = length ps - 1 \<and>
             new_pt = ps ! (length ps - 1)))"
proof -
  let ?d = "vertex_distances ps pp"
  have len: "length ?d = length ps" by (simp add: vertex_distances_def)
  have ne: "?d \<noteq> []" using two len by (cases ?d) auto
  have nep: "ps \<noteq> []" using two by auto
  have m: "min_element ?d < length ps" using min_element_less[OF ne] len by simp
  note seg = segment_index_le[OF two]
  show ?thesis
  proof (cases "dless (?d ! min_element ?d) snap_tolerance")
    case False
    with ne nep seg show ?thesis by (simp add: split_vertex_def Let_def find_segment_2D_def)
  next
    case True
    show ?thesis
    proof (cases "min_element ?d = 0")
      case z: True
      with True ne nep two seg show ?thesis
        by (simp add: split_vertex_def Let_def ls_at_def find_segment_2D_def)
    next
      case nz: False
      have nd: "length ?d - min_element ?d \<noteq> 0" using m len by simp
      have sv: "split_vertex ps pp fresh = Inr (ps ! min_element ?d, min_element ?d)"
        using True nz ne m nd by (simp add: split_vertex_def Let_def ls_at_def)
      have "min_element ?d + 2 \<le> length ps \<or> min_element ?d = length ps - 1"
        using m by arith
      with sv True show ?thesis by auto
    qed
  qed
qed

lemmas split_eval = split_linestring_def used_Id_ls_def ls_data_def points_of_def getId_def
  split_vertex_def vertex_distances_def basicPoint_def dsub_def dsquare_def min_element_def
  snap_tolerance_value ls_at_def find_segment_2D_def halfway_def new_linestring_def
  set_points_def Let_def invert_def ex_world_def ex_point_def ex_project_def ex_curve_def
  round_eval

text \<open>
  C1.  With a memo whose two vectors have the same length: when the id of the curve is
  already in \<open>splitted\<close>, \<open>split_linestring\<close> returns, for every split point and either
  direction, the linestring recorded for that id (inverted for a backward reference),
  and leaves the world, the handle of the curve and the memo as they were.  And after any
  call that returned, a second call through any handle to the same curve data, with any
  split point and direction, returns a handle to the same linestring data as the first
  call did and changes nothing: a boundary shared by two lanelets is split once, and
  both lanelets get the same suffix curve.
\<close>

theorem split_linestring_memo:
  assumes memo: "length new_lss = length splitted"
      and valid: "ls_ptr orig_ls < length (ls_heap w)"
  shows "(ls_id (ls_data w orig_ls) \<in> set splitted \<longrightarrow>
            split_linestring project w orig_ls splitted new_lss pt inverted =
              Inr (w, orig_ls,
                   (if inverted
                    then invert (new_lss ! find_index_of (ls_id (ls_data w orig_ls)) splitted)
                    else new_lss ! find_index_of (ls_id (ls_data w orig_ls)) splitted),
                   splitted, new_lss)) \<and>
         (\<forall>w' orig_ls' new_ls splitted' new_lss'.
            split_linestring project w orig_ls splitted new_lss pt inverted =
              Inr (w', orig_ls', new_ls, splitted', new_lss') \<longrightarrow>
            (\<forall>(other::LineString3d) project2 pt2 inverted2.
               ls_ptr other = ls_ptr orig_ls \<longrightarrow>
               (\<exists>new_ls2.
                  split_linestring project2 w' other splitted' new_lss' pt2 inverted2 =
                    Inr (w', other, new_ls2, splitted', new_lss') \<and>
                  ls_ptr new_ls2 = ls_ptr new_ls)))"
proof (intro conjI allI impI)
  assume "ls_id (ls_data w orig_ls) \<in> set splitted"
  then show "split_linestring project w orig_ls splitted new_lss pt inverted =
              Inr (w, orig_ls,
                   (if inverted
                    then invert (new_lss ! find_index_of (ls_id (ls_data w orig_ls)) splitted)
                    else new_lss ! find_index_of (ls_id (ls_data w orig_ls)) splitted),
                   splitted, new_lss)"
    using memo by (rule split_linestring_hit)
next
  fix w' orig_ls' new_ls splitted' new_lss' and other :: LineString3d and project2 pt2 inverted2
  assume first: "split_linestring project w orig_ls splitted new_lss pt inverted =
              Inr (w', orig_ls', new_ls, splitted', new_lss')"
     and same: "ls_ptr other = ls_ptr orig_ls"
  have data_same: "\<And>v. ls_data v other = ls_data v orig_ls"
    using same by (simp add: ls_data_def)
  let ?id = "ls_id (ls_data w orig_ls)"
  show "\<exists>new_ls2.
                  split_linestring project2 w' other splitted' new_lss' pt2 inverted2 =
                    Inr (w', other, new_ls2, splitted', new_lss') \<and>
                  ls_ptr new_ls2 = ls_ptr new_ls"
  proof (cases "?id \<in> set splitted")
    case True
    from split_linestring_hit[OF True memo, of project pt inverted] first
    have eqs: "w' = w" "splitted' = splitted" "new_lss' = new_lss"
        "ls_ptr new_ls = ls_ptr (new_lss ! find_index_of ?id splitted)"
      by (auto split: if_splits)
    have "ls_id (ls_data w other) \<in> set splitted" using True data_same by simp
    from split_linestring_hit[OF this memo, of project2 pt2 inverted2]
    show ?thesis using eqs data_same by (auto split: if_splits)
  next
    case False
    from first False obtain new_pt ind where
      sv: "split_vertex (points_of w (if inverted then invert orig_ls else orig_ls))
                 (project (points_of w (if inverted then invert orig_ls else orig_ls)) (basicPoint pt))
                 (next_id w) = Inr (new_pt, ind)"
      by (auto simp: split_linestring_def used_Id_ls_def Let_def getId_def
               split: sum.splits prod.splits if_splits)
    from split_linestring_miss[where new_lss = new_lss and project = project and pt = pt and inverted = inverted, OF False valid sv] first
    have eqs: "splitted' = splitted @ [?id]" "new_lss' = new_lss @ [next_linestring w]"
        "ls_ptr new_ls = ls_ptr (next_linestring w)" "ls_id (ls_data w' orig_ls) = ?id"
      by (auto split: if_splits)
    have in': "ls_id (ls_data w' other) \<in> set splitted'"
      using eqs data_same by simp
    have memo': "length new_lss' = length splitted'" using eqs memo by simp
    have idx: "find_index_of (ls_id (ls_data w' other)) splitted' = length splitted"
      using eqs data_same False by (simp add: find_index_of_append)
    have nth: "new_lss' ! length splitted = next_linestring w"
      unfolding eqs memo[symmetric] by simp
    from split_linestring_hit[OF in' memo', of project2 pt2 inverted2]
    show ?thesis unfolding idx nth using eqs(3) by (auto split: if_splits)
  qed
qed

text \<open>
  The three-vertex curve is split at its middle vertex; a second call for the same curve,
  through an inverted handle, for a backward reference and with another split point,
  returns the linestring at address 6 again and changes nothing.
\<close>

theorem split_linestring_memo_witness:
  "(case split_linestring ex_project ex_world (ex_curve 0) [] []
          (ex_point 50 1 2) False of
      Inl e \<Rightarrow> False
    | Inr (w', orig_ls, new_ls, splitted, new_lss) \<Rightarrow>
        splitted = [7] \<and> ls_ptr new_ls = 6 \<and>
        split_linestring ex_project w' \<lparr>ls_ptr = 0, ls_inverted = True\<rparr> splitted new_lss
            (ex_point 51 (3/2) 2) True
          = Inr (w', \<lparr>ls_ptr = 0, ls_inverted = True\<rparr>, \<lparr>ls_ptr = 6, ls_inverted = True\<rparr>,
                 splitted, new_lss))"
  using split_linestring_memo[where new_lss = "[]" and splitted = "[]" and w = ex_world
      and orig_ls = "ex_curve 0" and project = ex_project
      and pt = "ex_point 50 1 2" and inverted = False]
  by (simp add: split_eval)

text \<open>
  C2, as the code has it.  For a curve with at least 2 points that was not split before,
  \<open>split_linestring\<close> returns and records the curve and its suffix in the memo.  In the
  direction of travel, the retained prefix has at least 2 points and ends with the split
  vertex, the suffix starts with the split vertex, and the prefix without its last point
  followed by the suffix without its first point is the original point sequence: the
  split vertex is an additional point of both curves, whether it is new or a copy of a
  vertex.  The suffix has at least 2 points unless the vertex closest to the projected
  point is the last one and lies within the tolerance.
\<close>

theorem split_linestring_parts:
  assumes valid: "ls_ptr orig_ls < length (ls_heap w)"
      and unsplit: "\<not> used_Id_ls w splitted orig_ls"
      and two: "2 \<le> length (points_of w orig_ls)"
  shows "\<exists>w' new_ls.
           split_linestring project w orig_ls splitted new_lss pt inverted =
             Inr (w', orig_ls, new_ls, splitted @ [ls_id (ls_data w orig_ls)],
                  new_lss @ [if inverted then invert new_ls else new_ls]) \<and>
           (let ps = points_of w (if inverted then invert orig_ls else orig_ls);
                pre = points_of w' (if inverted then invert orig_ls else orig_ls);
                suf = points_of w' (if inverted then invert new_ls else new_ls);
                d = vertex_distances ps (project ps (basicPoint pt))
            in 2 \<le> length pre \<and> suf \<noteq> [] \<and> last pre = hd suf \<and>
               butlast pre @ tl suf = ps \<and>
               (\<not> (dless (d ! min_element d) snap_tolerance \<and> min_element d = length ps - 1)
                  \<longrightarrow> 2 \<le> length suf))"
proof -
  let ?work = "if inverted then invert orig_ls else orig_ls"
  let ?ps = "points_of w ?work"
  let ?pp = "project ?ps (basicPoint pt)"
  have two': "2 \<le> length ?ps" using two by (simp add: points_of_invert)
  from split_vertex_total[OF two', of ?pp "next_id w"]
  obtain new_pt ind where
    sv: "split_vertex ?ps ?pp (next_id w) = Inr (new_pt, ind)"
    and ind: "ind + 2 \<le> length ?ps \<or>
            (dless (vertex_distances ?ps ?pp ! min_element (vertex_distances ?ps ?pp)) snap_tolerance \<and>
             min_element (vertex_distances ?ps ?pp) = length ?ps - 1 \<and> ind = length ?ps - 1 \<and>
             new_pt = ?ps ! (length ?ps - 1))"
    by blast
  have miss: "ls_id (ls_data w orig_ls) \<notin> set splitted"
    using unsplit by (simp add: used_Id_ls_def)
  from split_linestring_miss[where new_lss = new_lss and project = project and pt = pt and inverted = inverted, OF miss valid sv]
  obtain w' where
    r: "split_linestring project w orig_ls splitted new_lss pt inverted =
     Inr (w', orig_ls,
          (if inverted then invert (next_linestring w) else next_linestring w),
          splitted @ [ls_id (ls_data w orig_ls)], new_lss @ [next_linestring w])"
    and pre: "points_of w' ?work = take (ind + 1) ?ps @ [new_pt]"
    and suf: "points_of w' (next_linestring w) = new_pt # drop (ind + 1) ?ps"
    by blast
  have indlt: "ind < length ?ps" using ind two' by auto
  show ?thesis
  proof (intro exI[of _ w'] exI[of _ "if inverted then invert (next_linestring w) else next_linestring w"] conjI)
    show "split_linestring project w orig_ls splitted new_lss pt inverted =
      Inr (w', orig_ls, if inverted then invert (next_linestring w) else next_linestring w,
         splitted @ [ls_id (ls_data w orig_ls)],
         new_lss @ [if inverted then invert (if inverted then invert (next_linestring w) else next_linestring w)
             else if inverted then invert (next_linestring w) else next_linestring w])"
      using r by simp
    have v: "(if inverted then invert (if inverted then invert (next_linestring w) else next_linestring w)
             else if inverted then invert (next_linestring w) else next_linestring w) = next_linestring w"
      by simp
    show "let ps = ?ps; pre = points_of w' ?work;
              suf = points_of w' (if inverted then invert (if inverted then invert (next_linestring w) else next_linestring w)
             else if inverted then invert (next_linestring w) else next_linestring w);
              d = vertex_distances ps (project ps (basicPoint pt))
          in 2 \<le> length pre \<and> suf \<noteq> [] \<and> last pre = hd suf \<and>
               butlast pre @ tl suf = ps \<and>
               (\<not> (dless (d ! min_element d) snap_tolerance \<and> min_element d = length ps - 1)
                  \<longrightarrow> 2 \<le> length suf)"
      unfolding v Let_def pre suf using indlt ind by (auto simp: butlast_append)
  qed
qed

text \<open>
  The two-vertex curve from (0, 3) to (2, 3), split at the projection (1, 3) of the point
  (1, 2): the split materialises the vertex 100, the prefix is the first vertex and the
  new one, the suffix the new vertex and the second one.
\<close>

theorem split_linestring_parts_witness:
  "(case split_linestring ex_project ex_world (ex_curve 1) [] []
          (ex_point 50 1 2) False of
      Inl e \<Rightarrow> False
    | Inr (w', orig_ls, new_ls, splitted, new_lss) \<Rightarrow>
        points_of ex_world (ex_curve 1)
          = [ex_point 4 0 3, ex_point 5 2 3] \<and>
        points_of w' orig_ls = [ex_point 4 0 3, ex_point 100 1 3] \<and>
        points_of w' new_ls = [ex_point 100 1 3, ex_point 5 2 3])"
  using split_linestring_parts[where w = ex_world and splitted = "[]" and new_lss = "[]"
      and orig_ls = "ex_curve 1" and project = ex_project
      and pt = "ex_point 50 1 2" and inverted = False]
  by (simp add: split_eval)

text \<open>
  C2 as stated fails where the split snaps to an interior vertex.  The three-vertex curve
  from (0, 0) over (1, 0) to (2, 0) is split for the point (1, 2), whose projection is
  the middle vertex.  The points behind the middle vertex are popped and the split vertex
  is pushed without a test, so the prefix ends with two copies of the middle vertex.  No
  point is new, yet the prefix and the suffix, joined with one copy of the split vertex
  left out, are not the original sequence: the middle vertex is there twice.
\<close>

theorem split_linestring_parts_counterexample:
  "(case split_linestring ex_project ex_world (ex_curve 0) [] []
          (ex_point 50 1 2) False of
      Inl e \<Rightarrow> False
    | Inr (w', orig_ls, new_ls, splitted, new_lss) \<Rightarrow>
        points_of ex_world (ex_curve 0)
          = [ex_point 1 0 0, ex_point 2 1 0, ex_point 3 2 0] \<and>
        points_of w' orig_ls = [ex_point 1 0 0, ex_point 2 1 0, ex_point 2 1 0] \<and>
        points_of w' new_ls = [ex_point 2 1 0, ex_point 3 2 0] \<and>
        points_of w' orig_ls @ tl (points_of w' new_ls)
          \<noteq> points_of ex_world (ex_curve 0) \<and>
        butlast (points_of w' orig_ls) @ points_of w' new_ls
          \<noteq> points_of ex_world (ex_curve 0))"
  by (simp add: split_eval)

text \<open>
  C3 at the last vertex.  The three-vertex curve from (0, 0) over (1, 0) to (2, 0) is
  split for the point (2, 2), whose projection is the last vertex.  The branch of the
  source for the last vertex is not taken: the split snaps to the last vertex itself,
  the original curve gets a second copy of it and the new curve has a single point.
\<close>

theorem split_linestring_last_vertex:
  "(case split_linestring ex_project ex_world (ex_curve 0) [] []
          (ex_point 50 2 2) False of
      Inl e \<Rightarrow> False
    | Inr (w', orig_ls, new_ls, splitted, new_lss) \<Rightarrow>
        points_of w' orig_ls
          = [ex_point 1 0 0, ex_point 2 1 0, ex_point 3 2 0, ex_point 3 2 0] \<and>
        points_of w' new_ls = [ex_point 3 2 0])"
  by (simp add: split_eval)

subsection \<open>The map finalizer\<close>





subsection \<open>The lane-count reconciler\<close>


lemma and_then_Inr_simp [simp]: "and_then (Inr a) f = f a"
  by (simp add: and_then_def)

lemma and_then_Inl_simp [simp]: "and_then (Inl e) f = Inl e"
  by (simp add: and_then_def)


lemma world_extends_refl [simp]: "world_extends w w"
  by (auto simp: world_extends_def intro!: exI[of _ "[]"])

lemma world_extends_trans: "world_extends a b \<Longrightarrow> world_extends b c \<Longrightarrow> world_extends a c"
  unfolding world_extends_def
  by (elim exE, rule_tac x = "ls @ lsa" in exI, rule_tac x = "lls @ llsa" in exI) simp

lemma empty_lanelet_extends: "empty_lanelet w = (ll, w1) \<Longrightarrow> world_extends w w1"
  unfolding world_extends_def
  by (rule exI[of _ "[\<lparr>ls_id = InvalId, ls_attrs = [], ls_points = []\<rparr>,
                       \<lparr>ls_id = InvalId, ls_attrs = [], ls_points = []\<rparr>]"])
     (auto simp: empty_lanelet_def new_linestring_def new_lanelet_def Let_def)

lemma find_ll_extends: "find_ll w m i = (ll, w1) \<Longrightarrow> world_extends w w1"
  by (cases "find (\<lambda>ll. lanelet_id w ll = i) (laneletLayer m)")
     (auto simp: find_ll_def dest: empty_lanelet_extends)






lemma chain_ids_ok_iff:
  "chain_ids_ok match \<longleftrightarrow> (\<forall>seg \<in> set (ref_pline match). attrs_ok (ls_attrs seg))"
  by (simp add: chain_ids_ok_def)

lemma starts_with_append: "starts_with a p \<Longrightarrow> starts_with (a @ b) p"
  by (induction a p rule: starts_with.induct) auto

lemma contains_append: "contains a p \<Longrightarrow> contains (a @ b) p"
proof (induction a)
  case Nil
  then show ?case by (cases b) auto
next
  case (Cons c a)
  then show ?case using starts_with_append[of "c # a" p b] by auto
qed

lemma chain_values_in:
  "v \<in> set (chain_values key attrs i) \<Longrightarrow> \<exists>j. (key @ digits_of j, v) \<in> set attrs"
proof (induction key attrs i rule: chain_values.induct)
  case (1 key attrs i)
  show ?case
  proof (cases "map_of attrs (key @ digits_of i)")
    case None
    with "1.prems" show ?thesis by (subst (asm) chain_values.simps) simp
  next
    case (Some a)
    with "1.prems" have "v = a \<or> v \<in> set (chain_values key attrs (Suc i))"
      by (subst (asm) chain_values.simps) auto
    then show ?thesis
    proof
      assume "v = a"
      with Some show ?thesis by (auto dest: map_of_SomeD)
    next
      assume "v \<in> set (chain_values key attrs (Suc i))"
      from "1.IH"[OF Some this] show ?thesis .
    qed
  qed
qed

lemma remove_from_chain_ok:
  assumes ok: "attrs_ok attrs" and key: "contains key ''forward'' \<or> contains key ''backward''"
  shows "attrs_ok (remove_from_chain key i attrs)"
  unfolding attrs_ok_def
proof (intro ballI, clarify)
  fix k v
  assume kv: "(k, v) \<in> set (remove_from_chain key i attrs)"
     and c: "contains k ''forward'' \<or> contains k ''backward''"
  from kv consider "(k, v) \<in> set attrs" | "v \<in> set (chain_values key attrs 1)"
    by (auto simp: remove_from_chain_def Let_def dest!: set_zip_rightD)
  then show "\<exists>y. asId v = Some y"
  proof cases
    case 1
    with ok c show ?thesis by (auto simp: attrs_ok_def)
  next
    case 2
    from chain_values_in[OF this] obtain j where "(key @ digits_of j, v) \<in> set attrs" ..
    moreover have "contains (key @ digits_of j) ''forward'' \<or> contains (key @ digits_of j) ''backward''"
      using key contains_append by blast
    ultimately show ?thesis using ok by (auto simp: attrs_ok_def)
  qed
qed

lemma remove_tag_ref_pline_ok:
  "chain_ids_ok match \<Longrightarrow> chain_ids_ok (remove_tag_ref_pline match i)"
  unfolding chain_ids_ok_iff
  by (auto simp: remove_tag_ref_pline_def intro!: remove_from_chain_ok)

lemma remove_tag_ref_pline_length [simp]:
  "length (ref_pline (remove_tag_ref_pline match i)) = length (ref_pline match)"
  by (simp add: remove_tag_ref_pline_def)

lemma find_wrong_lanelet_candidates_total:
  "attrs_ok attrs \<Longrightarrow>
   \<exists>w1 c. find_wrong_lanelet_candidates m attrs w cand = Inr (w1, c) \<and> world_extends w w1"
proof (induction attrs arbitrary: w cand)
  case Nil
  then show ?case by simp
next
  case (Cons kv attrs)
  obtain k v where kv: "kv = (k, v)" by (cases kv)
  from Cons.prems have ok: "attrs_ok attrs" by (simp add: attrs_ok_def)
  show ?case
  proof (cases "contains k ''forward'' \<or> contains k ''backward''")
    case False
    with Cons.IH[OF ok, of w cand] kv show ?thesis by simp
  next
    case True
    with Cons.prems kv obtain ident where i: "asId v = Some ident" by (auto simp: attrs_ok_def)
    obtain ll w0 where f: "find_ll w m ident = (ll, w0)" by (cases "find_ll w m ident")
    from Cons.IH[OF ok, of w0 "cand @ [ll]"] obtain w1 c where
      "find_wrong_lanelet_candidates m attrs w0 (cand @ [ll]) = Inr (w1, c)" "world_extends w0 w1"
      by blast
    with True kv i f find_ll_extends[OF f] show ?thesis
      by (auto intro: world_extends_trans)
  qed
qed

lemma find_wrong_lanelet_result:
  assumes "ind < length (ref_pline match)" "chain_ids_ok match"
  shows "\<exists>w1. world_extends w w1 \<and>
           (find_wrong_lanelet geo w m ind deleted match = Inr (False, w1, deleted, match) \<or>
            (\<exists>ll. find_wrong_lanelet geo w m ind deleted match
                     = Inr (True, w1, deleted @ [ll], remove_tag_ref_pline match (lanelet_id w1 ll)) \<and>
                  \<not> has_predecessor geo w1 m ll \<and> \<not> has_successor geo w1 m ll))"
proof -
  from assms have ok: "attrs_ok (ls_attrs (ref_pline match ! ind))"
    by (simp add: chain_ids_ok_iff)
  from find_wrong_lanelet_candidates_total[OF ok, of m w "[]"] obtain w1 c where
    c: "find_wrong_lanelet_candidates m (ls_attrs (ref_pline match ! ind)) w [] = Inr (w1, c)"
    and e: "world_extends w w1" by blast
  show ?thesis
  proof (cases "find (\<lambda>ll. \<not> has_predecessor geo w1 m ll \<and> \<not> has_successor geo w1 m ll) c")
    case None
    with c e assms(1) show ?thesis
      by (intro exI[of _ w1]) (simp add: find_wrong_lanelet_def vec_at_def)
  next
    case (Some ll)
    then have "\<not> has_predecessor geo w1 m ll \<and> \<not> has_successor geo w1 m ll"
      by (auto simp: find_Some_iff)
    with Some c e assms(1) show ?thesis
      by (intro exI[of _ w1]) (simp add: find_wrong_lanelet_def vec_at_def)
  qed
qed

lemma check_lanes_remove_aux:
  "(case st of (w, match, cols, deleted, out) \<Rightarrow>
   ind < length (ref_pline match) \<longrightarrow> chain_ids_ok match \<longrightarrow>
   (\<exists>w' match' removed out'.
     check_lanes_remove geo m ind lanes_count lanes_osm (w, match, cols, deleted, out)
       = Inr (w', match', cols, deleted @ removed, out') \<and>
     world_extends w w' \<and>
     int (length removed) \<le> max 0 (lanes_count - lanes_osm) \<and>
     (\<forall>ll \<in> set removed.
        \<exists>w0. world_extends w w0 \<and> world_extends w0 w' \<and>
             \<not> has_predecessor geo w0 m ll \<and> \<not> has_successor geo w0 m ll) \<and>
     (if int (length removed) = max 0 (lanes_count - lanes_osm) then out' = out
      else out' = out @ [skipping_message]) \<and>
     length (ref_pline match') = length (ref_pline match) \<and> chain_ids_ok match'))"
proof (induction geo m ind lanes_count lanes_osm st rule: check_lanes_remove.induct)
  case (1 geo m ind lanes_count lanes_osm w match cols deleted out)
  show ?case unfolding prod.case
  proof (intro impI)
    assume prems: "ind < length (ref_pline match)" "chain_ids_ok match"
    let ?goal = "\<exists>w' match' removed out'.
     check_lanes_remove geo m ind lanes_count lanes_osm (w, match, cols, deleted, out)
       = Inr (w', match', cols, deleted @ removed, out') \<and>
     world_extends w w' \<and>
     int (length removed) \<le> max 0 (lanes_count - lanes_osm) \<and>
     (\<forall>ll \<in> set removed.
        \<exists>w0. world_extends w w0 \<and> world_extends w0 w' \<and>
             \<not> has_predecessor geo w0 m ll \<and> \<not> has_successor geo w0 m ll) \<and>
     (if int (length removed) = max 0 (lanes_count - lanes_osm) then out' = out
      else out' = out @ [skipping_message]) \<and>
     length (ref_pline match') = length (ref_pline match) \<and> chain_ids_ok match'"
    show ?goal
  proof (cases "lanes_osm < lanes_count")
    case False
    then show ?thesis using prems
      by (subst check_lanes_remove.simps)
         (auto intro!: exI[of _ w] exI[of _ match] exI[of _ "[]"])
  next
    case True
    from find_wrong_lanelet_result[OF prems, of w geo m deleted] obtain w1 where
      e: "world_extends w w1" and
      alt: "find_wrong_lanelet geo w m ind deleted match = Inr (False, w1, deleted, match) \<or>
            (\<exists>ll. find_wrong_lanelet geo w m ind deleted match
                     = Inr (True, w1, deleted @ [ll], remove_tag_ref_pline match (lanelet_id w1 ll)) \<and>
                  \<not> has_predecessor geo w1 m ll \<and> \<not> has_successor geo w1 m ll)"
      by blast
    from alt show ?thesis
    proof
      assume nf: "find_wrong_lanelet geo w m ind deleted match = Inr (False, w1, deleted, match)"
      show ?thesis using True nf e prems
        by (subst check_lanes_remove.simps)
           (auto intro!: exI[of _ w1] exI[of _ match] exI[of _ "[]"])
    next
      assume "\<exists>ll. find_wrong_lanelet geo w m ind deleted match
                     = Inr (True, w1, deleted @ [ll], remove_tag_ref_pline match (lanelet_id w1 ll)) \<and>
                  \<not> has_predecessor geo w1 m ll \<and> \<not> has_successor geo w1 m ll"
      then obtain ll where
        f: "find_wrong_lanelet geo w m ind deleted match
              = Inr (True, w1, deleted @ [ll], remove_tag_ref_pline match (lanelet_id w1 ll))"
        and iso: "\<not> has_predecessor geo w1 m ll" "\<not> has_successor geo w1 m ll" by blast
      let ?match1 = "remove_tag_ref_pline match (lanelet_id w1 ll)"
      have p1: "ind < length (ref_pline ?match1)" using prems by simp
      have p2: "chain_ids_ok ?match1" using prems by (intro remove_tag_ref_pline_ok)
      from "1.IH"[OF True f refl refl refl] p1 p2 obtain w' match' removed out' where
        r: "check_lanes_remove geo m ind (lanes_count - 1) lanes_osm
              (w1, ?match1, cols, deleted @ [ll], out)
            = Inr (w', match', cols, (deleted @ [ll]) @ removed, out')"
        and e': "world_extends w1 w'"
        and n: "int (length removed) \<le> max 0 (lanes_count - 1 - lanes_osm)"
        and isos: "\<forall>ll \<in> set removed.
            \<exists>w0. world_extends w1 w0 \<and> world_extends w0 w' \<and>
                 \<not> has_predecessor geo w0 m ll \<and> \<not> has_successor geo w0 m ll"
        and o: "if int (length removed) = max 0 (lanes_count - 1 - lanes_osm) then out' = out
                else out' = out @ [skipping_message]"
        and l: "length (ref_pline match') = length (ref_pline ?match1)"
        and c: "chain_ids_ok match'"
        by auto
      have run: "check_lanes_remove geo m ind lanes_count lanes_osm (w, match, cols, deleted, out)
            = Inr (w', match', cols, deleted @ (ll # removed), out')"
        using True f r by (subst check_lanes_remove.simps) simp
      have isos': "\<forall>x \<in> set (ll # removed).
            \<exists>w0. world_extends w w0 \<and> world_extends w0 w' \<and>
                 \<not> has_predecessor geo w0 m x \<and> \<not> has_successor geo w0 m x"
        using isos iso e e' by (auto intro: world_extends_trans)
      show ?thesis
        using run isos' n o l c True e e' world_extends_trans[OF e e']
        by (intro exI[of _ w'] exI[of _ match'] exI[of _ "ll # removed"] exI[of _ out'])
           (auto split: if_splits)
    qed
  qed
  qed
qed

lemma check_lanes_remove_result:
  "ind < length (ref_pline match) \<Longrightarrow> chain_ids_ok match \<Longrightarrow>
   \<exists>w' match' removed out'.
     check_lanes_remove geo m ind lanes_count lanes_osm (w, match, cols, deleted, out)
       = Inr (w', match', cols, deleted @ removed, out') \<and>
     world_extends w w' \<and>
     int (length removed) \<le> max 0 (lanes_count - lanes_osm) \<and>
     (\<forall>ll \<in> set removed.
        \<exists>w0. world_extends w w0 \<and> world_extends w0 w' \<and>
             \<not> has_predecessor geo w0 m ll \<and> \<not> has_successor geo w0 m ll) \<and>
     (if int (length removed) = max 0 (lanes_count - lanes_osm) then out' = out
      else out' = out @ [skipping_message]) \<and>
     length (ref_pline match') = length (ref_pline match) \<and> chain_ids_ok match'"
  using check_lanes_remove_aux[where st = "(w, match, cols, deleted, out)" and ind = ind
      and geo = geo and m = m and lanes_count = lanes_count and lanes_osm = lanes_osm]
  by simp







text \<open>
  C6.  For a segment of a match whose chain entries hold ids, the removal loop of
  \<open>check_lanes\<close> returns.  It appends to \<open>deleted\<close> at most as many lanelets as the
  counted lanes exceed \<open>lanes_osm\<close>; each of them had, in the world in which it was
  chosen, neither a predecessor nor a successor among the other lanelets of the map;
  and when fewer were removed than the excess, because no such candidate was left, the
  loop has printed its message and stopped.  The colour entries are not touched.
\<close>

theorem check_lanes_remove_isolated:
  assumes "ind < length (ref_pline match)" and "chain_ids_ok match"
  shows "\<exists>w' match' removed out'.
     check_lanes_remove geo m ind lanes_count lanes_osm (w, match, cols, deleted, out)
       = Inr (w', match', cols, deleted @ removed, out') \<and>
     world_extends w w' \<and>
     int (length removed) \<le> max 0 (lanes_count - lanes_osm) \<and>
     (\<forall>ll \<in> set removed.
        \<exists>w0. world_extends w w0 \<and> world_extends w0 w' \<and>
             \<not> has_predecessor geo w0 m ll \<and> \<not> has_successor geo w0 m ll) \<and>
     (if int (length removed) = max 0 (lanes_count - lanes_osm) then out' = out
      else out' = out @ [skipping_message])"
proof -
  from check_lanes_remove_result[OF assms, of geo m lanes_count lanes_osm w cols deleted out]
  obtain w' match' removed out' where
    "check_lanes_remove geo m ind lanes_count lanes_osm (w, match, cols, deleted, out)
       = Inr (w', match', cols, deleted @ removed, out')"
    "world_extends w w'"
    "int (length removed) \<le> max 0 (lanes_count - lanes_osm)"
    "\<forall>ll \<in> set removed.
        \<exists>w0. world_extends w w0 \<and> world_extends w0 w' \<and>
             \<not> has_predecessor geo w0 m ll \<and> \<not> has_successor geo w0 m ll"
    "if int (length removed) = max 0 (lanes_count - lanes_osm) then out' = out
      else out' = out @ [skipping_message]"
    by (elim exE conjE)
  then show ?thesis
    by (intro exI[of _ w'] exI[of _ match'] exI[of _ removed] exI[of _ out'] conjI)
qed

subsection \<open>Evaluation of the loops on the example data\<close>

text \<open>The equations of the chain loops, one per outcome of the test of the loop.\<close>

lemma digits_of_small: "n < 10 \<Longrightarrow> digits_of n = [digit_char n]"
  by (subst digits_of.simps) simp

lemma digits_of_large:
  "10 \<le> n \<Longrightarrow> digits_of n = digits_of (n div 10) @ [digit_char (n mod 10)]"
  by (subst digits_of.simps) simp

lemma chain_values_None:
  "map_of attrs (key @ digits_of i) = None \<Longrightarrow> chain_values key attrs i = []"
  by (subst chain_values.simps) simp

lemma chain_values_Some:
  "map_of attrs (key @ digits_of i) = Some v \<Longrightarrow>
   chain_values key attrs i = v # chain_values key attrs (Suc i)"
  by (subst chain_values.simps) simp





lemma check_lanes_remove_done:
  "\<not> lanes_osm < lanes_count \<Longrightarrow>
   check_lanes_remove geo m ind lanes_count lanes_osm (w, match, cols, deleted, out)
     = Inr (w, match, cols, deleted, out)"
  by (subst check_lanes_remove.simps) simp

lemma check_lanes_remove_step:
  "lanes_osm < lanes_count \<Longrightarrow>
   check_lanes_remove geo m ind lanes_count lanes_osm (w, match, cols, deleted, out)
     = (case find_wrong_lanelet geo w m ind deleted match of
           Inl e \<Rightarrow> Inl e
         | Inr (found, w1, deleted1, match1) \<Rightarrow>
             if found then
               check_lanes_remove geo m ind (lanes_count - 1) lanes_osm
                 (w1, match1, cols, deleted1, out)
             else Inr (w1, match1, cols, deleted1, out @ [skipping_message]))"
  by (subst check_lanes_remove.simps) simp

lemmas ex_eval = ex_world_def ex_map_def ex_lanelet_def ex_curve_def ex_geo_def ex_follows_def
  ex_match_def ex_ref_seg_def ex_target_seg_def ex_point_def
lemmas str_eval = asId_def stoi_def take_sign_def is_digit_def is_space_def digit_value_def
  digits_of_small digits_of_large digit_char_def
lemmas ll_eval = find_ll_def lanelet_id_def ll_data_def used_Id_cols_def used_Id_ll_def








lemma ex_candidates:
  "find_wrong_lanelet_candidates ex_map
     [(''ll_id_forward_1'', ''21''), (''ll_id_forward_2'', ''22'')] ex_world []
   = Inr (ex_world, [ex_lanelet 0, ex_lanelet 1])"
  by (simp add: str_eval ll_eval ex_eval)

lemma ex_removed_tag:
  "remove_tag_ref_pline
     (ex_match [(''ll_id_forward_1'', ''21''), (''ll_id_forward_2'', ''22'')] [(''lanes'', ''1'')]) 22
   = ex_match [(''ll_id_forward_1'', ''21'')] [(''lanes'', ''1'')]"
  apply (simp add: remove_tag_ref_pline_def ex_match_def ex_ref_seg_def)
  apply (simp add: remove_from_chain_def Let_def chain_values_None chain_values_Some str_eval)
  done

lemma ex_find_wrong:
  "find_wrong_lanelet ex_geo ex_world ex_map 0 []
     (ex_match [(''ll_id_forward_1'', ''21''), (''ll_id_forward_2'', ''22'')] [(''lanes'', ''1'')])
   = Inr (True, ex_world, [ex_lanelet 1],
          ex_match [(''ll_id_forward_1'', ''21'')] [(''lanes'', ''1'')])"
proof -
  have seg: "vec_at (ref_pline (ex_match [(''ll_id_forward_1'', ''21''),
                 (''ll_id_forward_2'', ''22'')] [(''lanes'', ''1'')])) 0
     = Inr (ex_ref_seg [(''ll_id_forward_1'', ''21''), (''ll_id_forward_2'', ''22'')])"
    by (simp add: vec_at_def ex_match_def)
  have attrs: "ls_attrs (ex_ref_seg [(''ll_id_forward_1'', ''21''), (''ll_id_forward_2'', ''22'')])
     = [(''ll_id_forward_1'', ''21''), (''ll_id_forward_2'', ''22'')]"
    by (simp add: ex_ref_seg_def)
  have isolated:
    "find (\<lambda>ll. \<not> has_predecessor ex_geo ex_world ex_map ll \<and>
                \<not> has_successor ex_geo ex_world ex_map ll) [ex_lanelet 0, ex_lanelet 1]
     = Some (ex_lanelet 1)"
    by (simp add: has_predecessor_def has_successor_def ll_eval ex_world_def ex_map_def
          ex_lanelet_def ex_curve_def ex_geo_def ex_follows_def)
  have i: "lanelet_id ex_world (ex_lanelet 1) = 22"
    by (simp add: ll_eval ex_world_def ex_lanelet_def)
  show ?thesis
    unfolding find_wrong_lanelet_def seg and_then_Inr_simp attrs ex_candidates prod.case isolated
      option.case i ex_removed_tag
    by simp
qed

lemma ex_remove:
  "check_lanes_remove ex_geo ex_map 0 2 1
     (ex_world,
      ex_match [(''ll_id_forward_1'', ''21''), (''ll_id_forward_2'', ''22'')] [(''lanes'', ''1'')],
      [], [], [])
   = Inr (ex_world, ex_match [(''ll_id_forward_1'', ''21'')] [(''lanes'', ''1'')],
          [], [ex_lanelet 1], [])"
  by (simp add: check_lanes_remove_step check_lanes_remove_done ex_find_wrong)

lemma ex_chain_ids_ok:
  "chain_ids_ok
     (ex_match [(''ll_id_forward_1'', ''21''), (''ll_id_forward_2'', ''22'')] [(''lanes'', ''1'')])"
  by (simp add: chain_ids_ok_def attrs_ok_def ex_match_def ex_ref_seg_def str_eval)

text \<open>
  The scenario of the specification: lanes 1 on a segment with the two lanelets 21 and
  22.  Lanelet 21 is continued by lanelet 23; lanelet 22, which follows nothing and is
  followed by nothing, is removed, and the chain of the segment is left with lanelet 21.
\<close>

theorem check_lanes_remove_isolated_witness:
  "check_lanes_remove ex_geo ex_map 0 2 1
     (ex_world,
      ex_match [(''ll_id_forward_1'', ''21''), (''ll_id_forward_2'', ''22'')] [(''lanes'', ''1'')],
      [], [], [])
   = Inr (ex_world, ex_match [(''ll_id_forward_1'', ''21'')] [(''lanes'', ''1'')],
          [], [ex_lanelet 1], []) \<and>
   chain_ids_ok
     (ex_match [(''ll_id_forward_1'', ''21''), (''ll_id_forward_2'', ''22'')] [(''lanes'', ''1'')]) \<and>
   has_successor ex_geo ex_world ex_map (ex_lanelet 0) \<and>
   \<not> has_predecessor ex_geo ex_world ex_map (ex_lanelet 1) \<and>
   \<not> has_successor ex_geo ex_world ex_map (ex_lanelet 1)"
proof -
  have len: "0 < length (ref_pline (ex_match [(''ll_id_forward_1'', ''21''),
                 (''ll_id_forward_2'', ''22'')] [(''lanes'', ''1'')]))"
    by (simp add: ex_match_def)
  from check_lanes_remove_isolated[OF len ex_chain_ids_ok, of ex_geo ex_map 2 1 ex_world "[]"
      "[]" "[]"]
  obtain w' match' removed out' where
    "check_lanes_remove ex_geo ex_map 0 2 1
       (ex_world,
        ex_match [(''ll_id_forward_1'', ''21''), (''ll_id_forward_2'', ''22'')] [(''lanes'', ''1'')],
        [], [], [])
     = Inr (w', match', [], [] @ removed, out')"
    by (elim exE conjE)
  have iso: "has_successor ex_geo ex_world ex_map (ex_lanelet 0) \<and>
   \<not> has_predecessor ex_geo ex_world ex_map (ex_lanelet 1) \<and>
   \<not> has_successor ex_geo ex_world ex_map (ex_lanelet 1)"
    by (simp add: has_predecessor_def has_successor_def ll_eval ex_world_def ex_map_def
          ex_lanelet_def ex_curve_def ex_geo_def ex_follows_def)
  with ex_remove ex_chain_ids_ok show ?thesis by (intro conjI) simp_all
qed

subsection \<open>Matches that need no split\<close>



















lemma check_tag_change_constant:
  assumes "\<forall>key \<in> set keys. \<forall>seg \<in> set pline. tag_value seg key = first_value pline key"
  shows "check_tag_change pline keys pts vals =
           Inr (pts @ map (\<lambda>key. []) keys, vals @ map (\<lambda>key. [first_value pline key]) keys)"
  using assms
proof (induction keys arbitrary: pts vals)
  case Nil
  show ?case by simp
next
  case (Cons key keys)
  have c: "\<forall>seg \<in> set pline. tag_value seg key = first_value pline key" using Cons.prems by simp
  have w: "check_tag_change_walk key (first_value pline key) [] [first_value pline key] (tl pline)
      = Inr ([], [first_value pline key])"
    by (rule check_tag_change_walk_constant[OF first_value_tl[OF c]])
  have "check_tag_change pline keys (pts @ [[]]) (vals @ [[first_value pline key]]) =
           Inr ((pts @ [[]]) @ map (\<lambda>key. []) keys,
                (vals @ [[first_value pline key]]) @ map (\<lambda>key. [first_value pline key]) keys)"
    by (rule Cons.IH) (use Cons.prems in simp)
  with w show ?case by simp
qed

lemma merge_point_vec_empties: "merge_point_vec (map (\<lambda>key. []) keys) = []"
  by (induction keys) (auto simp: merge_point_vec_def)

lemma split_on_tag_change_constant:
  assumes "constant_tags match"
  shows "split_on_tag_change geo w m match target_keys [] [] =
           Inr (w, m, match, map (\<lambda>key. []) target_keys,
                map (\<lambda>key. [first_value (target_pline match) key]) target_keys)"
proof -
  have "check_tag_change (target_pline match) target_keys [] [] =
           Inr ([] @ map (\<lambda>key. []) target_keys,
                [] @ map (\<lambda>key. [first_value (target_pline match) key]) target_keys)"
    by (rule check_tag_change_constant) (use assms in \<open>simp add: constant_tags_def\<close>)
  then show ?thesis
    unfolding split_on_tag_change_def by (simp add: merge_point_vec_empties)
qed







subsection \<open>Matches with an empty route\<close>

lemma split_ll_dir_from_outside:
  "\<not> ind < length (ref_pline match) \<Longrightarrow>
   split_ll_dir_from i geo ind key pt (w, m, match, splitted, newls) = Inl Undefined_behaviour"
  by (subst split_ll_dir_from.simps) simp

lemma split_lanelet_no_ref:
  assumes ref: "ref_pline match = []" and pts: "pts \<noteq> []"
  shows "split_lanelet geo w m match pts = Inl Undefined_behaviour"
proof -
  from pts obtain pt rest where p: "pts = pt # rest" by (cases pts) simp_all
  have gi: "get_index match pt = Inr 0"
    by (simp add: get_index_def ref min_element_def)
  have s: "split_ll_dir geo 0 ''ll_id_forward_'' pt (w, m, match, [], []) = Inl Undefined_behaviour"
    unfolding split_ll_dir_def by (rule split_ll_dir_from_outside) (simp add: ref)
  show ?thesis
    unfolding split_lanelet_def p split_lanelet_pts.simps gi and_then_Inr_simp s and_then_Inl_simp
    by (rule refl)
qed

lemma conflate_match_empty_target:
  "target_pline match = [] \<Longrightarrow> conflate_match geo st match = Inr (st, match)"
  by (cases st) (simp add: conflate_match_def)

lemma same_direction_no_ref: "ref_pline match = [] \<Longrightarrow> same_direction match = Inr False"
  by (simp add: same_direction_def)

lemma set_type_location_no_ref:
  "ref_pline match = [] \<Longrightarrow> set_type_location w m match [] [v] = Inr w"
  by (simp add: set_type_location_def same_direction_no_ref)

lemma transfer_att_no_ref:
  "ref_pline match = [] \<Longrightarrow> transfer_att w m match ref_key [] [v] = Inr w"
  by (simp add: transfer_att_def transfer_tag_def same_direction_no_ref)

lemma check_lanes_no_ref:
  "ref_pline match = [] \<Longrightarrow>
   check_lanes geo m [] [] [v] [vs] (w, match, cols, deleted, out)
     = Inr (w, match, cols, deleted, out)"
  by (simp add: check_lanes_def same_direction_no_ref merge_point_vec_def vec_at_def)

lemma conflate_match_no_ref_constant:
  assumes ref: "ref_pline match = []" and const: "constant_tags match"
  shows "conflate_match geo st match = Inr (st, match)"
proof (cases "target_pline match = []")
  case True
  then show ?thesis by (rule conflate_match_empty_target)
next
  case False
  obtain w m cols deleted out where st: "st = (w, m, cols, deleted, out)" by (cases st)
  define tp where "tp = target_pline match"
  have p: "map (\<lambda>key. []) target_keys ! 0 = ([]::Point3d list)"
    "map (\<lambda>key. []) target_keys ! 1 = ([]::Point3d list)"
    "map (\<lambda>key. []) target_keys ! 2 = ([]::Point3d list)"
    "map (\<lambda>key. []) target_keys ! 3 = ([]::Point3d list)"
    "map (\<lambda>key. []) target_keys ! 4 = ([]::Point3d list)"
    "map (\<lambda>key. []) target_keys ! 5 = ([]::Point3d list)"
    "map (\<lambda>key. []) target_keys ! 6 = ([]::Point3d list)"
    "map (\<lambda>key. []) target_keys ! 7 = ([]::Point3d list)"
    by (simp_all add: target_keys_def)
  have vs: "map (\<lambda>key. [first_value tp key]) target_keys ! 0 = [first_value tp ''highway'']"
    "map (\<lambda>key. [first_value tp key]) target_keys ! 1 = [first_value tp ''maxspeed'']"
    "map (\<lambda>key. [first_value tp key]) target_keys ! 2 = [first_value tp ''name'']"
    "map (\<lambda>key. [first_value tp key]) target_keys ! 3 = [first_value tp ''oneway'']"
    "map (\<lambda>key. [first_value tp key]) target_keys ! 4 = [first_value tp ''surface'']"
    "map (\<lambda>key. [first_value tp key]) target_keys ! 5 = [first_value tp ''lane_markings'']"
    "map (\<lambda>key. [first_value tp key]) target_keys ! 6 = [first_value tp ''lanes'']"
    "map (\<lambda>key. [first_value tp key]) target_keys ! 7 = [first_value tp ''shoulder'']"
    by (simp_all add: target_keys_def)
  show ?thesis
    unfolding conflate_match_def st prod.case split_on_tag_change_constant[OF const]
      and_then_Inr_simp tp_def[symmetric] p vs set_type_location_no_ref[OF ref]
      transfer_att_no_ref[OF ref] check_lanes_no_ref[OF ref]
    using False by (simp add: tp_def)
qed

lemma ex_no_ref_tags:
  "check_tag_change (target_pline ex_no_ref_match) target_keys [] []
   = Inr ([[ex_point 81 2 2], [], [], [], [], [], [], []],
          [[''motorway'', ''primary''], [[]], [[]], [[]], [[]], [[]], [[]], [[]]])"
  by (simp add: ex_no_ref_match_def target_keys_def first_value_def tag_value_def ls_front_def)

lemma ex_no_ref_merged:
  "merge_point_vec [[ex_point 81 2 2], [], [], [], [], [], [], []] = [ex_point 81 2 2]"
  by (simp add: merge_point_vec_def)

lemma ex_no_ref_conflate_match:
  "conflate_match ex_geo (ex_world, ex_map, [], [], []) ex_no_ref_match = Inl Undefined_behaviour"
proof -
  have t: "target_pline ex_no_ref_match \<noteq> []" by (simp add: ex_no_ref_match_def)
  have r: "ref_pline ex_no_ref_match = []" by (simp add: ex_no_ref_match_def)
  have s: "split_lanelet ex_geo ex_world ex_map ex_no_ref_match [ex_point 81 2 2]
             = Inl Undefined_behaviour"
    by (rule split_lanelet_no_ref[OF r]) simp
  show ?thesis
    unfolding conflate_match_def prod.case split_on_tag_change_def ex_no_ref_tags
      and_then_Inr_simp ex_no_ref_merged
    using t by (simp add: s)
qed

text \<open>
  C8: a match with an empty route is skipped.  The guard of \<^verbatim>\<open>conflate_lanelet_OSM\<close>
  tests the target route only.  For the match without reference route whose target route
  changes its road class, \<^verbatim>\<open>get_index\<close> returns 0 and \<^verbatim>\<open>split_lanelet\<close> reads
  \<^verbatim>\<open>match.ref_pline()[0]\<close> of the empty vector: the pass does not skip the match, its
  behaviour is undefined.
\<close>

theorem conflate_lanelet_OSM_no_ref_route:
  "target_pline ex_no_ref_match \<noteq> [] \<and> ref_pline ex_no_ref_match = [] \<and>
   conflate_lanelet_OSM ex_geo (ex_world, ex_map, [], [], []) [ex_no_ref_match]
     = Inl Undefined_behaviour"
proof -
  have "conflate_lanelet_OSM ex_geo (ex_world, ex_map, [], [], []) [ex_no_ref_match]
          = Inl Undefined_behaviour"
    by (simp add: conflate_lanelet_OSM_def ex_no_ref_conflate_match)
  then show ?thesis by (simp add: ex_no_ref_match_def)
qed

subsection \<open>The public methods return\<close>







subsection \<open>Where the pass can fail\<close>



































































end
